theory Spec2Isabelle
  imports Main
begin

section \<open>Data model (bot/db/models.py)\<close>

text \<open>
  The tables of the prediction api as records. Instants are integers (a point on the
  time line); a \<open>datetime\<close> value carries the instant together with the calendar
  year and month the code reads off it (\<open>now.year\<close>, \<open>now.month\<close>).
  The server-managed columns \<open>created_at\<close>, \<open>updated_at\<close> and \<open>selected_at\<close>
  are never read by the code and are left out.
\<close>

datatype PredictionStatus = SCHEDULED | ACTIVE | CANCELLED | ARCHIVED

datatype MediaType = PHOTO | GIF | VIDEO | ANIMATION

record datetime =
  instant :: int
  year :: int
  month :: int

record Prediction =
  prediction_id :: int
  status :: PredictionStatus
  media_type :: MediaType
  media_file_id :: string
  post_text :: string
  button_1_initial :: string
  button_2_initial :: string
  button_3_initial :: string
  button_1_final :: string
  button_2_final :: string
  button_3_final :: string
  scheduled_at :: datetime
  activated_at :: "datetime option"
  broadcast_started :: bool
  broadcast_completed :: bool
  created_by_admin_id :: "nat option"

record User =
  user_id :: nat
  user_telegram_id :: int
  is_admin :: bool

record UserPredictionChoice =
  choice_id :: nat
  telegram_user_id :: int
  choice_prediction_id :: int
  selected_button :: int
  choice_year :: int
  choice_month :: int
  is_test :: bool

text \<open>
  \<open>Prediction.get_final_button\<close>: a dictionary with the keys 1, 2 and 3, read with
  \<open>mapping.get(button_number, "")\<close>.
\<close>

definition get_final_button :: "Prediction \<Rightarrow> int \<Rightarrow> string" where
  "get_final_button self button_number =
     (let mapping = [1 \<mapsto> button_1_final self,
                     2 \<mapsto> button_2_final self,
                     3 \<mapsto> button_3_final self]
      in case mapping button_number of Some v \<Rightarrow> v | None \<Rightarrow> '''')"

definition get_initial_buttons :: "Prediction \<Rightarrow> string list" where
  "get_initial_buttons self = [button_1_initial self, button_2_initial self, button_3_initial self]"

section \<open>Store and queries (bot/services/prediction_service.py, user_service.py)\<close>

text \<open>
  The relational store is a record of its three tables plus the two autoincrement
  counters. Exceptions are values: \<open>MultipleResultsFound\<close> is what
  \<open>scalar_one_or_none\<close> raises on more than one row, \<open>IntegrityError\<close> is what a
  flush raises when an insert breaks a constraint of the schema, \<open>DataError\<close> what it
  raises when a value does not fit its column.
\<close>

datatype violation = UniqueViolation | ForeignKeyViolation

datatype error = MultipleResultsFound | IntegrityError violation | DataError

record database =
  predictions :: "Prediction list"
  users :: "User list"
  choices :: "UserPredictionChoice list"
  next_prediction_id :: int
  next_choice_id :: nat

fun scalar_one_or_none :: "'a list \<Rightarrow> error + 'a option" where
  "scalar_one_or_none [] = Inr None"
| "scalar_one_or_none [x] = Inr (Some x)"
| "scalar_one_or_none (x # y # zs) = Inl MultipleResultsFound"

definition get_active_prediction :: "database \<Rightarrow> error + Prediction option" where
  "get_active_prediction d =
     scalar_one_or_none (filter (\<lambda>p. status p = ACTIVE) (predictions d))"

definition get_scheduled_prediction :: "database \<Rightarrow> error + Prediction option" where
  "get_scheduled_prediction d =
     scalar_one_or_none (filter (\<lambda>p. status p = SCHEDULED) (predictions d))"

definition get_prediction_by_id :: "database \<Rightarrow> int \<Rightarrow> error + Prediction option" where
  "get_prediction_by_id d i =
     scalar_one_or_none (filter (\<lambda>p. prediction_id p = i) (predictions d))"

text \<open>
  An attribute assignment on a loaded row followed by \<open>flush\<close> is an UPDATE of the row
  with that primary key.
\<close>

definition update_prediction :: "int \<Rightarrow> (Prediction \<Rightarrow> Prediction) \<Rightarrow> database \<Rightarrow> database" where
  "update_prediction i f d =
     d\<lparr>predictions := map (\<lambda>p. if prediction_id p = i then f p else p) (predictions d)\<rparr>"

text \<open>
  \<open>create_prediction\<close>, first flush: the existing scheduled prediction, if any, is
  cancelled.
\<close>

definition cancel_existing_scheduled :: "database \<Rightarrow> error + database" where
  "cancel_existing_scheduled d =
     (case get_scheduled_prediction d of
        Inl e \<Rightarrow> Inl e
      | Inr None \<Rightarrow> Inr d
      | Inr (Some existing_scheduled) \<Rightarrow>
          Inr (update_prediction (prediction_id existing_scheduled)
                 (\<lambda>p. p\<lparr>status := CANCELLED\<rparr>) d))"

text \<open>
  \<open>create_prediction\<close>, second flush: the new row is inserted as SCHEDULED. The insert is
  checked by the store, in this order: the column types (\<open>media_file_id\<close> is
  \<open>String(255)\<close>, the six button labels are \<open>String(64)\<close>; a longer value raises
  \<open>DataError\<close>), the partial unique index \<open>ix_predictions_unique_scheduled\<close>, and the
  foreign key of \<open>created_by_admin_id\<close> into \<open>users.id\<close>. A string's length is the
  number of its characters, each an element of the list.
\<close>

definition column_limits :: "Prediction \<Rightarrow> bool" where
  "column_limits row =
     (length (media_file_id row) \<le> 255 \<and>
      length (button_1_initial row) \<le> 64 \<and>
      length (button_2_initial row) \<le> 64 \<and>
      length (button_3_initial row) \<le> 64 \<and>
      length (button_1_final row) \<le> 64 \<and>
      length (button_2_final row) \<le> 64 \<and>
      length (button_3_final row) \<le> 64)"

definition ix_predictions_unique_scheduled :: "Prediction list \<Rightarrow> Prediction \<Rightarrow> bool" where
  "ix_predictions_unique_scheduled rows new =
     (status new = SCHEDULED \<longrightarrow> filter (\<lambda>p. status p = SCHEDULED) rows = [])"

definition fk_created_by_admin_id :: "User list \<Rightarrow> Prediction \<Rightarrow> bool" where
  "fk_created_by_admin_id rows new =
     (case created_by_admin_id new of
        None \<Rightarrow> True
      | Some admin \<Rightarrow> filter (\<lambda>u. user_id u = admin) rows \<noteq> [])"

definition insert_prediction :: "database \<Rightarrow> Prediction \<Rightarrow> error + database" where
  "insert_prediction d new =
     (if \<not> column_limits new then Inl DataError
      else if \<not> ix_predictions_unique_scheduled (predictions d) new
        then Inl (IntegrityError UniqueViolation)
      else if \<not> fk_created_by_admin_id (users d) new
        then Inl (IntegrityError ForeignKeyViolation)
      else Inr (d\<lparr>predictions := predictions d @ [new],
                  next_prediction_id := next_prediction_id d + 1\<rparr>))"

text \<open>
  A raise from either flush leaves \<open>create_prediction\<close> with the exception; what the
  first flush wrote is then undone by the rollback of the caller's session.
\<close>

definition create_prediction ::
  "database \<Rightarrow> MediaType \<Rightarrow> string \<Rightarrow> string \<Rightarrow> string \<Rightarrow> string \<Rightarrow> string \<Rightarrow>
   string \<Rightarrow> string \<Rightarrow> string \<Rightarrow> datetime \<Rightarrow> nat option \<Rightarrow> error + database \<times> Prediction" where
  "create_prediction d mt file_id text b1i b2i b3i b1f b2f b3f at admin =
     (case cancel_existing_scheduled d of
        Inl e \<Rightarrow> Inl e
      | Inr d1 \<Rightarrow>
          (let prediction =
                 \<lparr>prediction_id = next_prediction_id d1, status = SCHEDULED,
                  media_type = mt, media_file_id = file_id, post_text = text,
                  button_1_initial = b1i, button_2_initial = b2i, button_3_initial = b3i,
                  button_1_final = b1f, button_2_final = b2f, button_3_final = b3f,
                  scheduled_at = at, activated_at = None,
                  broadcast_started = False, broadcast_completed = False,
                  created_by_admin_id = admin\<rparr>
           in case insert_prediction d1 prediction of
                Inl e \<Rightarrow> Inl e
              | Inr d2 \<Rightarrow> Inr (d2, prediction)))"

text \<open>
  \<open>activate_prediction\<close> takes the loaded row and the clock reading; it returns the
  store and the row as the assignments leave them. There is no check of the row's status.
\<close>

definition activate_prediction ::
  "database \<Rightarrow> Prediction \<Rightarrow> datetime \<Rightarrow> error + database \<times> Prediction" where
  "activate_prediction d prediction now =
     (case get_active_prediction d of
        Inl e \<Rightarrow> Inl e
      | Inr active \<Rightarrow>
          (let d1 = (case active of
                       None \<Rightarrow> d
                     | Some a \<Rightarrow> update_prediction (prediction_id a) (\<lambda>p. p\<lparr>status := ARCHIVED\<rparr>) d);
               activate = (\<lambda>p. p\<lparr>status := ACTIVE, activated_at := Some now,
                                  broadcast_started := True\<rparr>)
           in Inr (update_prediction (prediction_id prediction) activate d1,
                   activate prediction)))"

definition mark_broadcast_completed :: "database \<Rightarrow> Prediction \<Rightarrow> database \<times> Prediction" where
  "mark_broadcast_completed d prediction =
     (update_prediction (prediction_id prediction) (\<lambda>p. p\<lparr>broadcast_completed := True\<rparr>) d,
      prediction\<lparr>broadcast_completed := True\<rparr>)"

definition cancel_prediction :: "database \<Rightarrow> Prediction \<Rightarrow> database \<times> Prediction" where
  "cancel_prediction d prediction =
     (update_prediction (prediction_id prediction) (\<lambda>p. p\<lparr>status := CANCELLED\<rparr>) d,
      prediction\<lparr>status := CANCELLED\<rparr>)"

definition has_user_chosen_this_month :: "database \<Rightarrow> int \<Rightarrow> int \<Rightarrow> int \<Rightarrow> error + bool" where
  "has_user_chosen_this_month d uid y m =
     (case scalar_one_or_none
             (filter (\<lambda>c. telegram_user_id c = uid \<and> choice_year c = y \<and> choice_month c = m \<and>
                           is_test c = False) (choices d)) of
        Inl e \<Rightarrow> Inl e
      | Inr r \<Rightarrow> Inr (r \<noteq> None))"

text \<open>
  The constraints of table \<open>user_prediction_choices\<close>: the unique constraint
  \<open>uq_user_prediction_choice_per_month\<close> over (telegram_user_id, year, month), whose
  columns do not include \<open>is_test\<close>, and the foreign key of \<open>prediction_id\<close>.
\<close>

definition uq_user_prediction_choice_per_month ::
  "UserPredictionChoice list \<Rightarrow> UserPredictionChoice \<Rightarrow> bool" where
  "uq_user_prediction_choice_per_month rows new =
     (filter (\<lambda>c. telegram_user_id c = telegram_user_id new \<and>
                   choice_year c = choice_year new \<and>
                   choice_month c = choice_month new) rows = [])"

definition fk_prediction_id :: "Prediction list \<Rightarrow> UserPredictionChoice \<Rightarrow> bool" where
  "fk_prediction_id rows new =
     (filter (\<lambda>p. prediction_id p = choice_prediction_id new) rows \<noteq> [])"

definition insert_choice :: "database \<Rightarrow> UserPredictionChoice \<Rightarrow> error + database" where
  "insert_choice d new =
     (if \<not> uq_user_prediction_choice_per_month (choices d) new
        then Inl (IntegrityError UniqueViolation)
      else if \<not> fk_prediction_id (predictions d) new
        then Inl (IntegrityError ForeignKeyViolation)
      else Inr (d\<lparr>choices := choices d @ [new], next_choice_id := Suc (next_choice_id d)\<rparr>))"

text \<open>
  \<open>record_user_choice\<close> builds the row from its arguments and the clock and flushes
  it; it makes no check of its own.
\<close>

definition record_user_choice ::
  "database \<Rightarrow> datetime \<Rightarrow> int \<Rightarrow> int \<Rightarrow> int \<Rightarrow> bool \<Rightarrow> error + database \<times> UserPredictionChoice" where
  "record_user_choice d now uid pid button test =
     (let choice = \<lparr>choice_id = next_choice_id d, telegram_user_id = uid,
                     choice_prediction_id = pid, selected_button = button,
                     choice_year = year now, choice_month = month now, is_test = test\<rparr>
      in case insert_choice d choice of
           Inl e \<Rightarrow> Inl e
         | Inr d' \<Rightarrow> Inr (d', choice))"

definition get_all_user_telegram_ids :: "database \<Rightarrow> int list" where
  "get_all_user_telegram_ids d = map user_telegram_id (users d)"

section \<open>Keyboards (bot/keyboards/user.py)\<close>

text \<open>Python's \<open>str\<close> of an integer, as the f-strings of the callback data use it.\<close>

fun str_nat :: "nat \<Rightarrow> string" where
  "str_nat n =
     (if n < 10 then [char_of (48 + n)]
      else str_nat (n div 10) @ [char_of (48 + n mod 10)])"

declare str_nat.simps [simp del]

definition str_int :: "int \<Rightarrow> string" where
  "str_int i = (if i < 0 then CHR ''-'' # str_nat (nat (- i)) else str_nat (nat i))"

record InlineKeyboardButton =
  button_text :: string
  callback_data :: string

type_synonym InlineKeyboardMarkup = "InlineKeyboardButton list list"

definition get_prediction_keyboard :: "Prediction \<Rightarrow> bool \<Rightarrow> InlineKeyboardMarkup" where
  "get_prediction_keyboard prediction test =
     (let prefix = (if test then ''test_'' else []);
          cb = (\<lambda>k. prefix @ ''select:'' @ str_int (prediction_id prediction) @ '':'' @ k)
      in [[\<lparr>button_text = button_1_initial prediction, callback_data = cb ''1''\<rparr>],
          [\<lparr>button_text = button_2_initial prediction, callback_data = cb ''2''\<rparr>],
          [\<lparr>button_text = button_3_initial prediction, callback_data = cb ''3''\<rparr>]])"

definition get_selected_keyboard :: "Prediction \<Rightarrow> int \<Rightarrow> InlineKeyboardMarkup" where
  "get_selected_keyboard prediction selected =
     (let final_text = get_final_button prediction selected
      in [[\<lparr>button_text = final_text,
             callback_data = ''selected:'' @ str_int (prediction_id prediction) @ '':'' @
                             str_int selected\<rparr>]])"

section \<open>Broadcast service (bot/services/broadcast_service.py)\<close>

text \<open>
  The messaging transport is outside the program. A send either delivers or raises; the
  service tells four kinds of exception apart. The transport is modelled as the answer it
  gives to the n-th call the program makes, so its behaviour may change from call to call,
  and the number of calls made so far is threaded through the service as state.
  \<open>asyncio.sleep\<close> changes no state and is not modelled.
\<close>

datatype api_method = send_photo | send_video | send_animation

record api_call =
  api_method :: api_method
  chat_id :: int
  media :: string
  caption :: string
  reply_markup :: InlineKeyboardMarkup

datatype api_result =
    Delivered
  | TelegramRetryAfter nat
  | TelegramForbiddenError
  | TelegramBadRequest
  | OtherException

type_synonym Bot = "nat \<Rightarrow> api_call \<Rightarrow> api_result"

definition BATCH_SIZE :: nat where
  "BATCH_SIZE = 25"

definition MAX_RETRIES :: nat where
  "MAX_RETRIES = 3"

text \<open>
  \<open>_send_media_message\<close>: one call of the method that fits the media type. Its result
  is the transport's answer and the number of calls made after it.
\<close>

definition send_media_message ::
  "Bot \<Rightarrow> int \<Rightarrow> Prediction \<Rightarrow> InlineKeyboardMarkup \<Rightarrow> nat \<Rightarrow> api_result \<times> nat" where
  "send_media_message api chat prediction keyboard n =
     (let call = (\<lambda>m. \<lparr>api_method = m, chat_id = chat, media = media_file_id prediction,
                        caption = post_text prediction, reply_markup = keyboard\<rparr>)
      in if media_type prediction = PHOTO then (api n (call send_photo), Suc n)
         else if media_type prediction = VIDEO then (api n (call send_video), Suc n)
         else if media_type prediction \<in> {GIF, ANIMATION} then (api n (call send_animation), Suc n)
         else (Delivered, n))"

text \<open>
  \<open>_send_to_user\<close>: the \<open>except\<close> clauses in the source's order. The result is the
  success flag and the number of transport calls made after the last attempt.
\<close>

function send_to_user ::
  "Bot \<Rightarrow> int \<Rightarrow> Prediction \<Rightarrow> InlineKeyboardMarkup \<Rightarrow> nat \<Rightarrow> nat \<Rightarrow> bool \<times> nat" where
  "send_to_user api user prediction keyboard retry_count n =
     (let (answer, n') = send_media_message api user prediction keyboard n
      in case answer of
           Delivered \<Rightarrow> (True, n')
         | TelegramRetryAfter secs \<Rightarrow>
             (if retry_count < MAX_RETRIES
                then send_to_user api user prediction keyboard (retry_count + 1) n'
              else (False, n'))
         | TelegramForbiddenError \<Rightarrow> (False, n')
         | TelegramBadRequest \<Rightarrow> (False, n')
         | OtherException \<Rightarrow>
             (if retry_count < MAX_RETRIES
                then send_to_user api user prediction keyboard (retry_count + 1) n'
              else (False, n')))"
  by pat_completeness auto
termination
  by (relation "measure (\<lambda>(api, user, prediction, keyboard, retry_count, n). MAX_RETRIES - retry_count)")
     auto

declare send_to_user.simps [simp del]

text \<open>
  The running state of \<open>broadcast_prediction\<close>: the three entries of the returned
  dictionary, the number of transport calls made, and the number of progress callbacks
  whose exception was logged and swallowed.
\<close>

record broadcast_state =
  success_count :: nat
  failure_count :: nat
  errors :: "int list"
  calls_made :: nat
  callback_errors :: nat

text \<open>The inner loop \<open>for user_id in batch\<close>.\<close>

fun send_batch ::
  "Bot \<Rightarrow> Prediction \<Rightarrow> InlineKeyboardMarkup \<Rightarrow> int list \<Rightarrow> broadcast_state \<Rightarrow> broadcast_state" where
  "send_batch api prediction keyboard [] st = st"
| "send_batch api prediction keyboard (user # batch) st =
     (let (success, n') = send_to_user api user prediction keyboard 0 (calls_made st)
      in send_batch api prediction keyboard batch
           (if success
              then st\<lparr>success_count := success_count st + 1, calls_made := n'\<rparr>
            else st\<lparr>failure_count := failure_count st + 1,
                     errors := errors st @ [user], calls_made := n'\<rparr>))"

text \<open>
  The outer loop \<open>for i in range(0, total_users, BATCH_SIZE)\<close>. The optional progress
  callback answers False when it raises.
\<close>

function broadcast_batches ::
  "Bot \<Rightarrow> Prediction \<Rightarrow> int list \<Rightarrow> InlineKeyboardMarkup \<Rightarrow> (nat \<Rightarrow> nat \<Rightarrow> bool) option \<Rightarrow>
   nat \<Rightarrow> broadcast_state \<Rightarrow> broadcast_state" where
  "broadcast_batches api prediction user_ids keyboard on_progress i st =
     (if i < length user_ids then
        (let batch = take BATCH_SIZE (drop i user_ids);
             st1 = send_batch api prediction keyboard batch st;
             st2 = (case on_progress of
                      None \<Rightarrow> st1
                    | Some callback \<Rightarrow>
                        if callback (i + length batch) (length user_ids) then st1
                        else st1\<lparr>callback_errors := Suc (callback_errors st1)\<rparr>)
         in broadcast_batches api prediction user_ids keyboard on_progress (i + BATCH_SIZE) st2)
      else st)"
  by pat_completeness auto
termination
  by (relation "measure (\<lambda>(api, prediction, user_ids, keyboard, on_progress, i, st). length user_ids - i)")
     (auto simp: BATCH_SIZE_def)

declare broadcast_batches.simps [simp del]

definition broadcast_prediction ::
  "Bot \<Rightarrow> Prediction \<Rightarrow> int list \<Rightarrow> InlineKeyboardMarkup \<Rightarrow> (nat \<Rightarrow> nat \<Rightarrow> bool) option \<Rightarrow>
   nat \<Rightarrow> broadcast_state" where
  "broadcast_prediction api prediction user_ids keyboard on_progress n =
     broadcast_batches api prediction user_ids keyboard on_progress 0
       \<lparr>success_count = 0, failure_count = 0, errors = [], calls_made = n, callback_errors = 0\<rparr>"

definition send_test_prediction ::
  "Bot \<Rightarrow> int \<Rightarrow> Prediction \<Rightarrow> InlineKeyboardMarkup \<Rightarrow> nat \<Rightarrow> bool \<times> nat" where
  "send_test_prediction api chat prediction keyboard n =
     (let (answer, n') = send_media_message api chat prediction keyboard n
      in case answer of
           Delivered \<Rightarrow> (True, n')
         | _ \<Rightarrow> (False, n'))"

text \<open>
  The answers the transport gives when each recipient of the list, in order, is sent to
  exactly once, starting at call number n.
\<close>

fun first_answers ::
  "Bot \<Rightarrow> Prediction \<Rightarrow> InlineKeyboardMarkup \<Rightarrow> nat \<Rightarrow> int list \<Rightarrow> api_result list" where
  "first_answers api prediction keyboard n [] = []"
| "first_answers api prediction keyboard n (user # rest) =
     fst (send_media_message api user prediction keyboard n) #
     first_answers api prediction keyboard (snd (send_media_message api user prediction keyboard n)) rest"

text \<open>
  The two classes of failure the service tells apart: a retryable one (rate limit, or any
  exception that is neither Forbidden nor BadRequest) and a permanent one.
\<close>

fun retryable :: "api_result \<Rightarrow> bool" where
  "retryable (TelegramRetryAfter secs) = True"
| "retryable OtherException = True"
| "retryable _ = False"

fun permanent_failure :: "api_result \<Rightarrow> bool" where
  "permanent_failure TelegramForbiddenError = True"
| "permanent_failure TelegramBadRequest = True"
| "permanent_failure _ = False"

section \<open>Scheduler jobs (bot/scheduler/jobs.py)\<close>

text \<open>
  What the jobs act on: the committed store, the number of transport calls made so far,
  and the global scheduler with its registered one-shot jobs (None before
  \<open>setup_scheduler\<close>). A job runs in a session of its own; an exception inside it is
  logged and the session rolled back, which leaves the store as of the last commit.
\<close>

record world =
  db :: database
  api_calls :: nat
  scheduler :: "(string \<times> datetime) list option"

definition broadcast_prediction_job :: "Bot \<Rightarrow> datetime \<Rightarrow> int \<Rightarrow> world \<Rightarrow> world" where
  "broadcast_prediction_job api now pid w =
     (case get_prediction_by_id (db w) pid of
        Inl e \<Rightarrow> w
      | Inr None \<Rightarrow> w
      | Inr (Some prediction) \<Rightarrow>
          if status prediction \<noteq> SCHEDULED then w
          else if broadcast_started prediction \<and> \<not> broadcast_completed prediction then w
          else
            (case activate_prediction (db w) prediction now of
               Inl e \<Rightarrow> w
             | Inr (d1, prediction1) \<Rightarrow>
                 (let user_ids = get_all_user_telegram_ids d1 in
                  if user_ids = [] then w\<lparr>db := fst (mark_broadcast_completed d1 prediction1)\<rparr>
                  else
                    (let keyboard = get_prediction_keyboard prediction1 False;
                         result = broadcast_prediction api prediction1 user_ids keyboard None
                                    (api_calls w)
                     in w\<lparr>db := fst (mark_broadcast_completed d1 prediction1),
                           api_calls := calls_made result\<rparr>))))"

text \<open>
  \<open>check_scheduled_predictions\<close> reads the clock once (\<open>now\<close>); \<open>job_now\<close> is the
  later reading that the activation inside the job makes.
\<close>

definition check_scheduled_predictions :: "Bot \<Rightarrow> datetime \<Rightarrow> datetime \<Rightarrow> world \<Rightarrow> world" where
  "check_scheduled_predictions api now job_now w =
     (case get_scheduled_prediction (db w) of
        Inl e \<Rightarrow> w
      | Inr None \<Rightarrow> w
      | Inr (Some scheduled) \<Rightarrow>
          if instant (scheduled_at scheduled) \<le> instant now then
            (if \<not> broadcast_started scheduled
               then broadcast_prediction_job api job_now (prediction_id scheduled) w
             else w)
          else
            (let job_id = ''broadcast_'' @ str_int (prediction_id scheduled) in
             case scheduler w of
               None \<Rightarrow> w
             | Some jobs \<Rightarrow>
                 if find (\<lambda>j. fst j = job_id) jobs = None
                   then w\<lparr>scheduler := Some (filter (\<lambda>j. fst j \<noteq> job_id) jobs @
                                               [(job_id, scheduled_at scheduled)])\<rparr>
                 else w))"

section \<open>Statistics (bot/services/statistics_service.py)\<close>

record MonthlyStatistics =
  stats_year :: int
  stats_month :: int
  total_users :: nat
  active_users :: nat
  button_1_count :: nat
  button_2_count :: nat
  button_3_count :: nat

definition get_current_month_statistics :: "database \<Rightarrow> datetime \<Rightarrow> MonthlyStatistics" where
  "get_current_month_statistics d now =
     (let y = year now;
          m = month now;
          total = length (users d);
          rows = filter (\<lambda>c. choice_year c = y \<and> choice_month c = m \<and> is_test c = False)
                   (choices d);
          count = (\<lambda>k. sum_list (map (\<lambda>c. 1) (filter (\<lambda>c. selected_button c = k) rows)))
      in \<lparr>stats_year = y, stats_month = m, total_users = total, active_users = length rows,
          button_1_count = count 1, button_2_count = count 2, button_3_count = count 3\<rparr>)"

text \<open>The stored non-test choices of the calendar period of \<open>now\<close>.\<close>

definition month_rows :: "database \<Rightarrow> datetime \<Rightarrow> UserPredictionChoice list" where
  "month_rows d now =
     filter (\<lambda>c. choice_year c = year now \<and> choice_month c = month now \<and> \<not> is_test c)
       (choices d)"

section \<open>Button handlers (bot/handlers/user/prediction.py, bot/middlewares/database.py)\<close>

text \<open>
  A callback query carries the sender's id and the callback data, either of which may be
  missing. What a handler does to the chat is its answer and, when the edit goes through,
  the keyboard it puts under the message. Python's \<open>int\<close> of a string is a parameter of
  the handlers (\<open>None\<close> for \<open>ValueError\<close>), and so is the success of the transport's
  \<open>edit_reply_markup\<close>.
\<close>

record CallbackQuery =
  from_user :: "int option"
  data :: "string option"

datatype answer =
    answer_empty
  | answer_data_error
  | answer_wrong_button_number
  | answer_already_chosen
  | answer_prediction_not_found
  | answer_choice_saved
  | answer_test_choice_not_counted
  | answer_test_choice

record handler_result =
  answered :: answer
  edited_markup :: "InlineKeyboardMarkup option"

fun split :: "char \<Rightarrow> string \<Rightarrow> string list" where
  "split sep [] = [[]]"
| "split sep (c # cs) =
     (if c = sep then [] # split sep cs
      else (case split sep cs of
              [] \<Rightarrow> [[c]]
            | part # parts \<Rightarrow> (c # part) # parts))"

definition handle_button_selection ::
  "(string \<Rightarrow> int option) \<Rightarrow> bool \<Rightarrow> datetime \<Rightarrow> CallbackQuery \<Rightarrow> database \<Rightarrow>
   error + database \<times> handler_result" where
  "handle_button_selection int_of edit_ok now callback d =
     (if from_user callback = None \<or> data callback = None \<or> data callback = Some []
        then Inr (d, \<lparr>answered = answer_empty, edited_markup = None\<rparr>)
      else
        (let parts = split CHR '':'' (the (data callback)) in
         if length parts \<noteq> 3
           then Inr (d, \<lparr>answered = answer_data_error, edited_markup = None\<rparr>)
         else
           (case (int_of (parts ! 1), int_of (parts ! 2)) of
              (Some pid, Some button_number) \<Rightarrow>
                if button_number \<notin> {1, 2, 3}
                  then Inr (d, \<lparr>answered = answer_wrong_button_number, edited_markup = None\<rparr>)
                else
                  (let user = the (from_user callback) in
                   case has_user_chosen_this_month d user (year now) (month now) of
                     Inl e \<Rightarrow> Inl e
                   | Inr True \<Rightarrow>
                       Inr (d, \<lparr>answered = answer_already_chosen, edited_markup = None\<rparr>)
                   | Inr False \<Rightarrow>
                       (case get_prediction_by_id d pid of
                          Inl e \<Rightarrow> Inl e
                        | Inr None \<Rightarrow>
                            Inr (d, \<lparr>answered = answer_prediction_not_found,
                                     edited_markup = None\<rparr>)
                        | Inr (Some prediction) \<Rightarrow>
                            (case record_user_choice d now user pid button_number False of
                               Inl e \<Rightarrow> Inl e
                             | Inr (d', choice) \<Rightarrow>
                                 Inr (d', \<lparr>answered = answer_choice_saved,
                                           edited_markup =
                                             (if edit_ok
                                                then Some (get_selected_keyboard prediction
                                                             button_number)
                                              else None)\<rparr>))))
            | _ \<Rightarrow> Inr (d, \<lparr>answered = answer_data_error, edited_markup = None\<rparr>))))"

definition handle_test_button_selection ::
  "(string \<Rightarrow> int option) \<Rightarrow> bool \<Rightarrow> CallbackQuery \<Rightarrow> database \<Rightarrow>
   error + database \<times> handler_result" where
  "handle_test_button_selection int_of edit_ok callback d =
     (if from_user callback = None \<or> data callback = None \<or> data callback = Some []
        then Inr (d, \<lparr>answered = answer_empty, edited_markup = None\<rparr>)
      else
        (let parts = split CHR '':'' (the (data callback)) in
         if length parts \<noteq> 3
           then Inr (d, \<lparr>answered = answer_data_error, edited_markup = None\<rparr>)
         else
           (case (int_of (parts ! 1), int_of (parts ! 2)) of
              (Some pid, Some button_number) \<Rightarrow>
                (case get_prediction_by_id d pid of
                   Inl e \<Rightarrow> Inl e
                 | Inr None \<Rightarrow>
                     Inr (d, \<lparr>answered = answer_prediction_not_found, edited_markup = None\<rparr>)
                 | Inr (Some prediction) \<Rightarrow>
                     if edit_ok
                       then Inr (d, \<lparr>answered = answer_test_choice_not_counted,
                                     edited_markup =
                                       Some (get_selected_keyboard prediction button_number)\<rparr>)
                     else Inr (d, \<lparr>answered = answer_test_choice, edited_markup = None\<rparr>))
            | _ \<Rightarrow> Inr (d, \<lparr>answered = answer_data_error, edited_markup = None\<rparr>))))"

text \<open>
  \<open>DatabaseMiddleware\<close>: the handler's session is committed when the handler returns and
  rolled back when it raises.
\<close>

definition DatabaseMiddleware ::
  "(database \<Rightarrow> error + database \<times> 'r) \<Rightarrow> database \<Rightarrow> database \<times> (error + 'r)" where
  "DatabaseMiddleware handler d =
     (case handler d of
        Inl e \<Rightarrow> (d, Inl e)
      | Inr (d', r) \<Rightarrow> (d', Inr r))"

section \<open>Sequences of create calls\<close>

text \<open>
  The number of SCHEDULED rows; a call of \<open>create_prediction\<close> with its eleven arguments
  as one value; the session of one call under \<open>DatabaseMiddleware\<close>, which commits what
  the call flushed when it returns and rolls it back when it raises; a run of such
  sessions; and the states of the store that a run passes through, for each call the
  state after the cancelling flush and the state the session ends in (after the inserting
  flush, or rolled back). A call is acceptable when its strings fit their columns and its
  admin id, if given, is the id of a stored user.
\<close>

definition scheduled_count :: "database \<Rightarrow> nat" where
  "scheduled_count d = length (filter (\<lambda>p. status p = SCHEDULED) (predictions d))"

type_synonym create_call =
  "MediaType \<times> string \<times> string \<times> string \<times> string \<times> string \<times> string \<times> string \<times> string \<times>
   datetime \<times> nat option"

definition call_create_prediction :: "database \<Rightarrow> create_call \<Rightarrow> error + database \<times> Prediction" where
  "call_create_prediction d c =
     (case c of (mt, file_id, text, b1i, b2i, b3i, b1f, b2f, b3f, at, admin) \<Rightarrow>
        create_prediction d mt file_id text b1i b2i b3i b1f b2f b3f at admin)"

definition acceptable_call :: "database \<Rightarrow> create_call \<Rightarrow> bool" where
  "acceptable_call d c =
     (case c of (mt, file_id, text, b1i, b2i, b3i, b1f, b2f, b3f, at, admin) \<Rightarrow>
        length file_id \<le> 255 \<and>
        list_all (\<lambda>label. length label \<le> 64) [b1i, b2i, b3i, b1f, b2f, b3f] \<and>
        (case admin of
           None \<Rightarrow> True
         | Some a \<Rightarrow> list_ex (\<lambda>u. user_id u = a) (users d)))"

definition create_session :: "database \<Rightarrow> create_call \<Rightarrow> database" where
  "create_session d c = fst (DatabaseMiddleware (\<lambda>d. call_create_prediction d c) d)"

fun create_all :: "database \<Rightarrow> create_call list \<Rightarrow> database" where
  "create_all d [] = d"
| "create_all d (c # cs) = create_all (create_session d c) cs"

fun passed_states :: "database \<Rightarrow> create_call list \<Rightarrow> database list" where
  "passed_states d [] = []"
| "passed_states d (c # cs) =
     (case cancel_existing_scheduled d of
        Inl e \<Rightarrow> []
      | Inr d1 \<Rightarrow> [d1]) @
     create_session d c # passed_states (create_session d c) cs"

section \<open>Sample data\<close>

definition sample_time :: datetime where
  "sample_time = \<lparr>instant = 1000, year = 2024, month = 5\<rparr>"

definition sample_prediction :: Prediction where
  "sample_prediction =
     \<lparr>prediction_id = 1, status = SCHEDULED, media_type = PHOTO, media_file_id = ''file'',
      post_text = ''text'',
      button_1_initial = ''a'', button_2_initial = ''b'', button_3_initial = ''c'',
      button_1_final = ''A'', button_2_final = ''B'', button_3_final = ''C'',
      scheduled_at = sample_time, activated_at = None,
      broadcast_started = False, broadcast_completed = False,
      created_by_admin_id = None\<rparr>"

text \<open>Transports: one that always raises, one that is rate limited once, one that three
  recipients have blocked.\<close>

definition failing_api :: Bot where
  "failing_api n call = OtherException"

definition rate_limited_once_api :: Bot where
  "rate_limited_once_api n call = (if n = 0 then TelegramRetryAfter 2 else Delivered)"

definition blocking_api :: Bot where
  "blocking_api n call =
     (if chat_id call \<in> {10, 20, 30} then TelegramForbiddenError else Delivered)"

definition sixty_users :: "int list" where
  "sixty_users = map int [1..<61]"

text \<open>A store with one scheduled prediction and two users, and a create call.\<close>

definition sample_users :: "User list" where
  "sample_users =
     [\<lparr>user_id = 1, user_telegram_id = 10, is_admin = False\<rparr>,
      \<lparr>user_id = 2, user_telegram_id = 11, is_admin = False\<rparr>]"

definition sample_db :: database where
  "sample_db =
     \<lparr>predictions = [sample_prediction], users = sample_users, choices = [],
      next_prediction_id = 2, next_choice_id = 1\<rparr>"

definition sample_call :: create_call where
  "sample_call =
     (VIDEO, ''file2'', ''text2'', ''x'', ''y'', ''z'', ''X'', ''Y'', ''Z'', sample_time, None)"

text \<open>Two create calls the store rejects: a label of 65 characters, an admin id of no user.\<close>

definition long_label_call :: create_call where
  "long_label_call =
     (VIDEO, ''file3'', ''text3'', replicate 65 CHR ''x'', ''y'', ''z'', ''X'', ''Y'', ''Z'',
      sample_time, None)"

definition unknown_admin_call :: create_call where
  "unknown_admin_call =
     (VIDEO, ''file4'', ''text4'', ''x'', ''y'', ''z'', ''X'', ''Y'', ''Z'', sample_time, Some 999)"

text \<open>A choice table with a counted choice, a test choice and a choice of another month.\<close>

definition mixed_choice_db :: database where
  "mixed_choice_db =
     sample_db\<lparr>choices :=
       [\<lparr>choice_id = 1, telegram_user_id = 10, choice_prediction_id = 1, selected_button = 2,
         choice_year = 2024, choice_month = 5, is_test = False\<rparr>,
        \<lparr>choice_id = 2, telegram_user_id = 11, choice_prediction_id = 1, selected_button = 3,
         choice_year = 2024, choice_month = 5, is_test = True\<rparr>,
        \<lparr>choice_id = 3, telegram_user_id = 12, choice_prediction_id = 1, selected_button = 2,
         choice_year = 2024, choice_month = 4, is_test = False\<rparr>]\<rparr>"

text \<open>
  A parser of plain decimal numerals to stand for Python's \<open>int\<close>, and two callback
  queries of user 10 on button 2 of prediction 1: the admin preview's and the broadcast's.
\<close>

fun digits_value :: "string \<Rightarrow> nat \<Rightarrow> nat option" where
  "digits_value [] acc = Some acc"
| "digits_value (c # cs) acc =
     (if 48 \<le> (of_char c :: nat) \<and> (of_char c :: nat) \<le> 57
        then digits_value cs (10 * acc + (of_char c - 48))
      else None)"

definition int_of_decimal :: "string \<Rightarrow> int option" where
  "int_of_decimal s = (if s = [] then None else map_option int (digits_value s 0))"

definition test_callback :: CallbackQuery where
  "test_callback = \<lparr>from_user = Some 10, data = Some ''test_select:1:2''\<rparr>"

definition user_callback :: CallbackQuery where
  "user_callback = \<lparr>from_user = Some 10, data = Some ''select:1:2''\<rparr>"

text \<open>A store whose only prediction is cancelled, and that prediction activated.\<close>

definition cancelled_prediction :: Prediction where
  "cancelled_prediction = sample_prediction\<lparr>status := CANCELLED\<rparr>"

definition cancelled_db :: database where
  "cancelled_db = sample_db\<lparr>predictions := [cancelled_prediction]\<rparr>"

definition activated_prediction :: Prediction where
  "activated_prediction =
     cancelled_prediction\<lparr>status := ACTIVE, activated_at := Some sample_time,
                           broadcast_started := True\<rparr>"

definition cancelled_world :: world where
  "cancelled_world = \<lparr>db = cancelled_db, api_calls = 0, scheduler = None\<rparr>"

text \<open>A store with a cancelled prediction and an active one.\<close>

definition running_prediction :: Prediction where
  "running_prediction =
     sample_prediction\<lparr>prediction_id := 2, status := ACTIVE, activated_at := Some sample_time,
                        broadcast_started := True, broadcast_completed := True\<rparr>"

definition two_row_db :: database where
  "two_row_db = sample_db\<lparr>predictions := [cancelled_prediction, running_prediction]\<rparr>"

text \<open>A clock reading after the sample prediction is due, and the world of the jobs.\<close>

definition later_time :: datetime where
  "later_time = \<lparr>instant = 1060, year = 2024, month = 5\<rparr>"

definition sample_world :: world where
  "sample_world = \<lparr>db = sample_db, api_calls = 0, scheduler = Some []\<rparr>"

section \<open>Final button labels\<close>

text \<open>
  C10. \<open>get_final_button\<close> is total: for the button numbers 1, 2 and 3 it returns the
  matching final label, and for every other integer it returns the empty string.
\<close>

theorem get_final_button_total:
  "get_final_button p 1 = button_1_final p \<and>
   get_final_button p 2 = button_2_final p \<and>
   get_final_button p 3 = button_3_final p \<and>
   (n \<notin> {1, 2, 3} \<longrightarrow> get_final_button p n = '''')"
  by (simp add: get_final_button_def)

theorem get_final_button_total_witness:
  "get_final_button sample_prediction 1 = ''A'' \<and>
   get_final_button sample_prediction 2 = ''B'' \<and>
   get_final_button sample_prediction 3 = ''C'' \<and>
   (7::int) \<notin> {1, 2, 3} \<and> get_final_button sample_prediction 7 = ''''"
  using get_final_button_total [of sample_prediction 7]
  by (simp add: sample_prediction_def)

section \<open>Per-recipient send and its retries\<close>

lemma snd_send_media_message:
  "snd (send_media_message api chat p kb n) = Suc n"
  by (cases "media_type p") (simp_all add: send_media_message_def)

lemma send_to_user_calls:
  "rc \<le> MAX_RETRIES \<Longrightarrow>
   n < snd (send_to_user api user p kb rc n) \<and>
   snd (send_to_user api user p kb rc n) + rc \<le> n + MAX_RETRIES + 1"
proof (induction api user p kb rc n rule: send_to_user.induct)
  case (1 api user p kb rc n)
  obtain a where a: "send_media_message api user p kb n = (a, Suc n)"
    using snd_send_media_message [of api user p kb n]
    by (cases "send_media_message api user p kb n") simp
  show ?case
  proof (cases "retryable a \<and> rc < MAX_RETRIES")
    case True
    then have "send_to_user api user p kb rc n = send_to_user api user p kb (rc + 1) (Suc n)"
      using a by (cases a) (simp_all add: send_to_user.simps [of api user p kb rc n])
    moreover have "Suc n < snd (send_to_user api user p kb (rc + 1) (Suc n)) \<and>
        snd (send_to_user api user p kb (rc + 1) (Suc n)) + (rc + 1) \<le> Suc n + MAX_RETRIES + 1"
      using True a "1.IH"(1) [of "(a, Suc n)" a "Suc n"] "1.IH"(2) [of "(a, Suc n)" a "Suc n"]
      by (cases a) simp_all
    ultimately show ?thesis by simp
  next
    case False
    then have "snd (send_to_user api user p kb rc n) = Suc n"
      using a by (cases a) (simp_all add: send_to_user.simps [of api user p kb rc n])
    then show ?thesis using "1.prems" by simp
  qed
qed

lemma send_to_user_exhausted:
  "rc \<le> MAX_RETRIES \<Longrightarrow>
   (\<And>k. k + rc \<le> MAX_RETRIES \<Longrightarrow> retryable (fst (send_media_message api user p kb (n + k)))) \<Longrightarrow>
   send_to_user api user p kb rc n = (False, n + MAX_RETRIES + 1 - rc)"
proof (induction api user p kb rc n rule: send_to_user.induct)
  case (1 api user p kb rc n)
  obtain a where a: "send_media_message api user p kb n = (a, Suc n)"
    using snd_send_media_message [of api user p kb n]
    by (cases "send_media_message api user p kb n") simp
  have ra: "retryable a" using "1.prems"(2) [of 0] "1.prems"(1) a by simp
  show ?case
  proof (cases "rc < MAX_RETRIES")
    case True
    have step: "send_to_user api user p kb rc n = send_to_user api user p kb (rc + 1) (Suc n)"
      using a ra True by (cases a) (simp_all add: send_to_user.simps [of api user p kb rc n])
    have later: "retryable (fst (send_media_message api user p kb (Suc n + k)))"
      if "k + (rc + 1) \<le> MAX_RETRIES" for k
      using "1.prems"(2) [of "Suc k"] that by simp
    have "send_to_user api user p kb (rc + 1) (Suc n) = (False, Suc n + MAX_RETRIES + 1 - (rc + 1))"
      using True a ra later "1.IH"(1) [of "(a, Suc n)" a "Suc n"] "1.IH"(2) [of "(a, Suc n)" a "Suc n"]
      by (cases a) simp_all
    then show ?thesis using step by simp
  next
    case False
    then have "send_to_user api user p kb rc n = (False, Suc n)"
      using a ra by (cases a) (simp_all add: send_to_user.simps [of api user p kb rc n])
    moreover have "rc = MAX_RETRIES" using False "1.prems"(1) by simp
    ultimately show ?thesis by simp
  qed
qed

text \<open>
  C3, as the code has it. \<open>_send_to_user\<close> always returns, after at least one and at most
  four transport calls: the first attempt and \<open>MAX_RETRIES = 3\<close> retries. When each of
  the four attempts meets a retryable error, the recipient is counted as a failure after
  the fourth.
\<close>

theorem send_to_user_attempts:
  "n < snd (send_to_user api user p kb 0 n) \<and>
   snd (send_to_user api user p kb 0 n) \<le> n + 4 \<and>
   ((\<forall>k \<le> 3. retryable (fst (send_media_message api user p kb (n + k)))) \<longrightarrow>
      send_to_user api user p kb 0 n = (False, n + 4))"
  using send_to_user_calls [of 0 n api user p kb]
    send_to_user_exhausted [of 0 api user p kb n]
  by (simp add: MAX_RETRIES_def)

theorem send_to_user_attempts_witness:
  "retryable (fst (send_media_message failing_api 7 sample_prediction [] 0)) \<and>
   retryable (fst (send_media_message failing_api 7 sample_prediction [] 1)) \<and>
   retryable (fst (send_media_message failing_api 7 sample_prediction [] 2)) \<and>
   retryable (fst (send_media_message failing_api 7 sample_prediction [] 3)) \<and>
   send_to_user failing_api 7 sample_prediction [] 0 0 = (False, 4)"
proof -
  have r: "retryable (fst (send_media_message failing_api 7 sample_prediction [] k))" for k
    by (simp add: send_media_message_def failing_api_def sample_prediction_def)
  then have h: "\<forall>k \<le> 3. retryable (fst (send_media_message failing_api 7 sample_prediction [] (0 + k)))"
    by simp
  show ?thesis
    using r h send_to_user_attempts [of 0 failing_api 7 sample_prediction "[]"] by simp
qed

text \<open>
  C3, as the claim has it (at most three attempts in total), fails: against a transport
  that always raises, the fourth call is made.
\<close>

theorem send_to_user_fourth_attempt:
  "\<not> snd (send_to_user failing_api 7 sample_prediction [] 0 0) - 0 \<le> 3"
  by (simp add: send_to_user.simps send_media_message_def failing_api_def
      sample_prediction_def MAX_RETRIES_def)

section \<open>Preview send\<close>

lemma send_to_user_final:
  assumes "\<not> retryable (fst (send_media_message api user p kb n))"
  shows "send_to_user api user p kb rc n =
           (fst (send_media_message api user p kb n) = Delivered, Suc n)"
proof -
  obtain a where a: "send_media_message api user p kb n = (a, Suc n)"
    using snd_send_media_message [of api user p kb n]
    by (cases "send_media_message api user p kb n") simp
  with assms show ?thesis
    by (cases a) (simp_all add: send_to_user.simps [of api user p kb rc n])
qed

lemma send_test_prediction_eq:
  "send_test_prediction api chat p kb n =
     (fst (send_media_message api chat p kb n) = Delivered, Suc n)"
proof -
  obtain a where a: "send_media_message api chat p kb n = (a, Suc n)"
    using snd_send_media_message [of api chat p kb n]
    by (cases "send_media_message api chat p kb n") simp
  then show ?thesis
    by (cases a) (simp_all add: send_test_prediction_def)
qed

text \<open>
  C7, as the code has it. \<open>send_test_prediction\<close> makes exactly one transport call and
  succeeds exactly when that call delivers; it agrees with \<open>_send_to_user\<close> whenever the
  first answer is not a retryable error (delivered, Forbidden or BadRequest).
\<close>

theorem send_test_prediction_single_attempt:
  "send_test_prediction api chat p kb n =
     (fst (send_media_message api chat p kb n) = Delivered, Suc n) \<and>
   (\<not> retryable (fst (send_media_message api chat p kb n)) \<longrightarrow>
      send_test_prediction api chat p kb n = send_to_user api chat p kb 0 n)"
  by (simp add: send_test_prediction_eq send_to_user_final)

theorem send_test_prediction_single_attempt_witness:
  "\<not> retryable (fst (send_media_message blocking_api 10 sample_prediction [] 0)) \<and>
   send_test_prediction blocking_api 10 sample_prediction [] 0 = (False, 1) \<and>
   send_to_user blocking_api 10 sample_prediction [] 0 0 = (False, 1)"
proof -
  have h: "\<not> retryable (fst (send_media_message blocking_api 10 sample_prediction [] 0))"
    by (simp add: send_media_message_def blocking_api_def sample_prediction_def)
  have t: "send_test_prediction blocking_api 10 sample_prediction [] 0 = (False, 1)"
    by (simp add: send_test_prediction_def send_media_message_def blocking_api_def
        sample_prediction_def)
  have e: "send_test_prediction blocking_api 10 sample_prediction [] 0 =
      send_to_user blocking_api 10 sample_prediction [] 0 0"
    using h send_test_prediction_single_attempt [of blocking_api 10 sample_prediction "[]" 0]
    by blast
  show ?thesis
    using h t e [symmetric] by simp
qed

text \<open>
  C7, as the claim has it (the same result as the per-recipient send of a broadcast),
  fails: when the transport is rate limited once, the broadcast's send retries and
  succeeds, and the preview send reports failure.
\<close>

theorem send_test_prediction_not_send_to_user:
  "fst (send_test_prediction rate_limited_once_api 7 sample_prediction
          (get_prediction_keyboard sample_prediction True) 0) \<noteq>
   fst (send_to_user rate_limited_once_api 7 sample_prediction
          (get_prediction_keyboard sample_prediction True) 0 0)"
  by (simp add: send_test_prediction_def send_to_user.simps send_media_message_def
      rate_limited_once_api_def sample_prediction_def MAX_RETRIES_def)

section \<open>Broadcast tally\<close>

lemma send_batch_append:
  "send_batch api p kb (xs @ ys) st = send_batch api p kb ys (send_batch api p kb xs st)"
  by (induction xs arbitrary: st) (simp_all add: Let_def split: prod.splits)

lemma send_batch_callback_errors_aux:
  "st' = st\<lparr>callback_errors := k\<rparr> \<Longrightarrow>
   send_batch api p kb xs st' = (send_batch api p kb xs st)\<lparr>callback_errors := k\<rparr>"
proof (induction xs arbitrary: st st')
  case Nil
  then show ?case by simp
next
  case (Cons x xs)
  obtain ok m where r: "send_to_user api x p kb 0 (calls_made st) = (ok, m)"
    by (cases "send_to_user api x p kb 0 (calls_made st)")
  have c: "calls_made st' = calls_made st" using Cons.prems by simp
  show ?case
  proof (cases ok)
    case True
    have "send_batch api p kb xs (st'\<lparr>success_count := success_count st' + 1, calls_made := m\<rparr>) =
        (send_batch api p kb xs (st\<lparr>success_count := success_count st + 1, calls_made := m\<rparr>))
          \<lparr>callback_errors := k\<rparr>"
      by (rule Cons.IH) (simp add: Cons.prems)
    then show ?thesis using r c True by simp
  next
    case False
    have "send_batch api p kb xs (st'\<lparr>failure_count := failure_count st' + 1,
            errors := errors st' @ [x], calls_made := m\<rparr>) =
        (send_batch api p kb xs (st\<lparr>failure_count := failure_count st + 1,
            errors := errors st @ [x], calls_made := m\<rparr>))\<lparr>callback_errors := k\<rparr>"
      by (rule Cons.IH) (simp add: Cons.prems)
    then show ?thesis using r c False by simp
  qed
qed

lemma send_batch_callback_errors:
  "send_batch api p kb xs (st\<lparr>callback_errors := k\<rparr>) =
     (send_batch api p kb xs st)\<lparr>callback_errors := k\<rparr>"
  by (rule send_batch_callback_errors_aux) simp

lemma broadcast_batches_send_batch:
  "\<exists>k. broadcast_batches api p us kb cb i st =
         (send_batch api p kb (drop i us) st)\<lparr>callback_errors := k\<rparr>"
proof (induction api p us kb cb i st rule: broadcast_batches.induct)
  case (1 api p us kb cb i st)
  show ?case
  proof (cases "i < length us")
    case False
    then have "broadcast_batches api p us kb cb i st = st"
      by (simp add: broadcast_batches.simps [of api p us kb cb i st])
    moreover have "send_batch api p kb (drop i us) st = st" using False by simp
    ultimately have "broadcast_batches api p us kb cb i st =
        (send_batch api p kb (drop i us) st)\<lparr>callback_errors := callback_errors st\<rparr>"
      by simp
    then show ?thesis by blast
  next
    case True
    define batch where "batch = take BATCH_SIZE (drop i us)"
    define st1 where "st1 = send_batch api p kb batch st"
    define st2 where "st2 = (case cb of None \<Rightarrow> st1
        | Some callback \<Rightarrow> if callback (i + length batch) (length us) then st1
            else st1\<lparr>callback_errors := Suc (callback_errors st1)\<rparr>)"
    have unfold: "broadcast_batches api p us kb cb i st =
        broadcast_batches api p us kb cb (i + BATCH_SIZE) st2"
      unfolding st2_def st1_def batch_def using True
      by (simp add: broadcast_batches.simps [of api p us kb cb i st] Let_def)
    obtain k where k: "broadcast_batches api p us kb cb (i + BATCH_SIZE) st2 =
        (send_batch api p kb (drop (i + BATCH_SIZE) us) st2)\<lparr>callback_errors := k\<rparr>"
      using "1.IH" [OF True batch_def st1_def st2_def] by blast
    obtain j where j: "st2 = st1\<lparr>callback_errors := j\<rparr>"
    proof (cases cb)
      case None
      then have "st2 = st1\<lparr>callback_errors := callback_errors st1\<rparr>" by (simp add: st2_def)
      then show ?thesis using that by blast
    next
      case (Some callback)
      then show ?thesis using that [of "callback_errors st1"] that [of "Suc (callback_errors st1)"]
        by (cases "callback (i + length batch) (length us)") (simp_all add: st2_def)
    qed
    have split: "drop i us = batch @ drop (i + BATCH_SIZE) us"
      by (simp add: batch_def add.commute [of i] flip: drop_drop)
    have "send_batch api p kb (drop i us) st =
        send_batch api p kb (drop (i + BATCH_SIZE) us) st1"
      by (simp only: split send_batch_append st1_def)
    then have "(send_batch api p kb (drop (i + BATCH_SIZE) us) st2)\<lparr>callback_errors := k\<rparr> =
        (send_batch api p kb (drop i us) st)\<lparr>callback_errors := k\<rparr>"
      by (simp add: j send_batch_callback_errors)
    then show ?thesis using unfold k by auto
  qed
qed


lemma not_retryable_iff: "(a = Delivered \<or> permanent_failure a) = (\<not> retryable a)"
  by (cases a) simp_all

lemma send_batch_tally:
  "list_all (\<lambda>a. \<not> retryable a) (first_answers api p kb (calls_made st) us) \<Longrightarrow>
   success_count (send_batch api p kb us st) =
     success_count st +
     length (filter (\<lambda>a. a = Delivered) (first_answers api p kb (calls_made st) us)) \<and>
   failure_count (send_batch api p kb us st) =
     failure_count st +
     length (filter (\<lambda>a. a \<noteq> Delivered) (first_answers api p kb (calls_made st) us)) \<and>
   errors (send_batch api p kb us st) =
     errors st @
     map fst (filter (\<lambda>(u, a). a \<noteq> Delivered)
                (zip us (first_answers api p kb (calls_made st) us))) \<and>
   calls_made (send_batch api p kb us st) = calls_made st + length us"
proof (induction us arbitrary: st)
  case Nil
  then show ?case by simp
next
  case (Cons u us)
  define a where "a = fst (send_media_message api u p kb (calls_made st))"
  have nr: "\<not> retryable a" using Cons.prems by (simp add: a_def)
  have s: "send_to_user api u p kb 0 (calls_made st) = (a = Delivered, Suc (calls_made st))"
    using nr unfolding a_def by (rule send_to_user_final)
  have rest: "list_all (\<lambda>a. \<not> retryable a) (first_answers api p kb (Suc (calls_made st)) us)"
    using Cons.prems by (simp add: snd_send_media_message)
  show ?case
  proof (cases "a = Delivered")
    case True
    show ?thesis
      using Cons.IH [of "st\<lparr>success_count := success_count st + 1,
                             calls_made := Suc (calls_made st)\<rparr>"] rest s True
      by (simp add: snd_send_media_message flip: a_def)
  next
    case False
    show ?thesis
      using Cons.IH [of "st\<lparr>failure_count := failure_count st + 1,
                             errors := errors st @ [u],
                             calls_made := Suc (calls_made st)\<rparr>"] rest s False
      by (simp add: snd_send_media_message flip: a_def)
  qed
qed

lemma length_first_answers: "length (first_answers api p kb n us) = length us"
  by (induction us arbitrary: n) simp_all

text \<open>
  C2. When every recipient's send either delivers or fails permanently (Forbidden or
  BadRequest), \<open>broadcast_prediction\<close> returns, with or without a progress callback and
  whether or not the callback raises, the tally \<open>success_count = N - K\<close> and
  \<open>failure_count = K\<close>, where N is the number of recipients and K the number of permanent
  failures; every recipient is sent to exactly once. No branch of the service raises:
  each exception of the transport and of the callback is a value it handles.
\<close>

theorem broadcast_prediction_tally:
  assumes "list_all (\<lambda>a. a = Delivered \<or> permanent_failure a)
             (first_answers api p kb n user_ids)"
  shows "success_count (broadcast_prediction api p user_ids kb on_progress n) =
           length user_ids - length (filter permanent_failure (first_answers api p kb n user_ids)) \<and>
         failure_count (broadcast_prediction api p user_ids kb on_progress n) =
           length (filter permanent_failure (first_answers api p kb n user_ids)) \<and>
         length (filter permanent_failure (first_answers api p kb n user_ids)) \<le> length user_ids \<and>
         calls_made (broadcast_prediction api p user_ids kb on_progress n) = n + length user_ids"
proof -
  let ?st = "\<lparr>success_count = 0, failure_count = 0, errors = [], calls_made = n,
              callback_errors = 0\<rparr>"
  let ?as = "first_answers api p kb n user_ids"
  obtain k where k: "broadcast_prediction api p user_ids kb on_progress n =
      (send_batch api p kb user_ids ?st)\<lparr>callback_errors := k\<rparr>"
    using broadcast_batches_send_batch [of api p user_ids kb on_progress 0 ?st]
    by (auto simp: broadcast_prediction_def)
  have nr: "list_all (\<lambda>a. \<not> retryable a) (first_answers api p kb (calls_made ?st) user_ids)"
    using assms by (simp add: not_retryable_iff)
  have perm: "filter (\<lambda>a. a \<noteq> Delivered) ?as = filter permanent_failure ?as"
    using assms by (intro filter_cong refl) (auto simp: list_all_iff)
  have "length (filter (\<lambda>a. a = Delivered) ?as) + length (filter (\<lambda>a. a \<noteq> Delivered) ?as) = length ?as"
    using sum_length_filter_compl [of "\<lambda>a. a = Delivered" ?as] by simp
  then have succ: "length (filter (\<lambda>a. a = Delivered) ?as) =
      length user_ids - length (filter permanent_failure ?as)"
    by (simp add: perm length_first_answers)
  have le: "length (filter permanent_failure ?as) \<le> length user_ids"
    using length_filter_le [of permanent_failure ?as] by (simp add: length_first_answers)
  show ?thesis
    using send_batch_tally [OF nr] k succ le by (simp add: perm)
qed

theorem broadcast_prediction_tally_witness:
  "success_count (broadcast_prediction blocking_api sample_prediction sixty_users
      (get_prediction_keyboard sample_prediction False) None 0) = 57 \<and>
   failure_count (broadcast_prediction blocking_api sample_prediction sixty_users
      (get_prediction_keyboard sample_prediction False) None 0) = 3"
proof -
  let ?as = "first_answers blocking_api sample_prediction
      (get_prediction_keyboard sample_prediction False) 0 sixty_users"
  have h: "list_all (\<lambda>a. a = Delivered \<or> permanent_failure a) ?as"
    by code_simp
  have k: "length (filter permanent_failure ?as) = 3"
    by code_simp
  have n: "length sixty_users = 60"
    by code_simp
  show ?thesis
    using broadcast_prediction_tally [OF h, of None] k n by simp
qed


section \<open>At most one scheduled prediction\<close>

lemma filter_singleton:
  assumes "filter P xs = [e]"
  shows "e \<in> set xs" and "P e" and "\<And>x. x \<in> set xs \<Longrightarrow> P x \<Longrightarrow> x = e"
proof -
  have s: "set (filter P xs) = {e}" using assms by simp
  show "e \<in> set xs" "P e" using s by auto
  show "x = e" if "x \<in> set xs" "P x" for x
  proof -
    have "x \<in> set (filter P xs)" using that by simp
    then have "x \<in> {e}" by (simp only: s)
    then show ?thesis by simp
  qed
qed

lemma cancel_existing_scheduled_ok:
  assumes "scheduled_count d \<le> 1"
  shows "\<exists>d1. cancel_existing_scheduled d = Inr d1 \<and> scheduled_count d1 = 0 \<and>
           length (predictions d1) = length (predictions d) \<and>
           (distinct (map prediction_id (predictions d)) \<longrightarrow>
              predictions d1 =
                map (\<lambda>q. if status q = SCHEDULED then q\<lparr>status := CANCELLED\<rparr> else q)
                  (predictions d))"
proof (cases "filter (\<lambda>p. status p = SCHEDULED) (predictions d)")
  case Nil
  then have c: "cancel_existing_scheduled d = Inr d"
    by (simp add: cancel_existing_scheduled_def get_scheduled_prediction_def)
  have "\<And>q. q \<in> set (predictions d) \<Longrightarrow> status q \<noteq> SCHEDULED"
    using Nil by (simp add: filter_empty_conv)
  then have "map (\<lambda>q. if status q = SCHEDULED then q\<lparr>status := CANCELLED\<rparr> else q) (predictions d)
      = predictions d"
    by (simp add: map_idI)
  then show ?thesis using c Nil by (simp add: scheduled_count_def)
next
  case (Cons e rest)
  then have rest: "rest = []" using assms by (simp add: scheduled_count_def)
  then have f: "filter (\<lambda>p. status p = SCHEDULED) (predictions d) = [e]" using Cons by simp
  let ?d1 = "update_prediction (prediction_id e) (\<lambda>p. p\<lparr>status := CANCELLED\<rparr>) d"
  have c: "cancel_existing_scheduled d = Inr ?d1"
    using f by (simp add: cancel_existing_scheduled_def get_scheduled_prediction_def)
  have only: "q = e" if "q \<in> set (predictions d)" "status q = SCHEDULED" for q
    using filter_singleton(3) [OF f] that by simp
  have e: "e \<in> set (predictions d)" "status e = SCHEDULED"
    using filter_singleton(1,2) [OF f] by simp_all
  define f where "f = (\<lambda>q::Prediction. if prediction_id q = prediction_id e then q\<lparr>status := CANCELLED\<rparr> else q)"
  have p1: "predictions ?d1 = map f (predictions d)"
    by (simp add: update_prediction_def f_def)
  have "status (f q) \<noteq> SCHEDULED" if "q \<in> set (predictions d)" for q
  proof (cases "prediction_id q = prediction_id e")
    case True
    then show ?thesis by (simp add: f_def)
  next
    case False
    then have "q \<noteq> e" by blast
    then have "status q \<noteq> SCHEDULED" using only [OF that] by blast
    then show ?thesis using False by (simp add: f_def)
  qed
  then have "\<forall>x \<in> set (map f (predictions d)). status x \<noteq> SCHEDULED"
    by auto
  then have "filter (\<lambda>p. status p = SCHEDULED) (predictions ?d1) = []"
    unfolding p1 by (simp only: filter_empty_conv not_False_eq_True simp_thms)
  then have z: "scheduled_count ?d1 = 0" by (simp add: scheduled_count_def)
  have "predictions ?d1 =
      map (\<lambda>q. if status q = SCHEDULED then q\<lparr>status := CANCELLED\<rparr> else q) (predictions d)"
    if dist: "distinct (map prediction_id (predictions d))"
  proof -
    have inj: "inj_on prediction_id (set (predictions d))"
      using dist by (simp add: distinct_map)
    have "(prediction_id q = prediction_id e) = (status q = SCHEDULED)"
      if "q \<in> set (predictions d)" for q
    proof
      assume "prediction_id q = prediction_id e"
      then have "q = e" using inj that e(1) by (simp add: inj_on_def)
      then show "status q = SCHEDULED" using e(2) by simp
    next
      assume "status q = SCHEDULED"
      then show "prediction_id q = prediction_id e" using only [OF that] by simp
    qed
    then show ?thesis by (simp add: update_prediction_def cong: map_cong)
  qed
  then show ?thesis using c z by (simp add: update_prediction_def)
qed


lemma cancel_existing_scheduled_users:
  "cancel_existing_scheduled d = Inr d1 \<Longrightarrow> users d1 = users d"
  by (auto simp: cancel_existing_scheduled_def update_prediction_def
      split: sum.splits option.splits)

lemma fk_created_by_admin_id_iff:
  "fk_created_by_admin_id us row =
     (case created_by_admin_id row of None \<Rightarrow> True | Some a \<Rightarrow> list_ex (\<lambda>u. user_id u = a) us)"
  by (simp add: fk_created_by_admin_id_def filter_empty_conv list_ex_iff split: option.splits)

lemma call_create_prediction_accepted:
  assumes "cancel_existing_scheduled d = Inr d1" and "scheduled_count d1 = 0"
    and "acceptable_call d c"
  shows "\<exists>d2 p. call_create_prediction d c = Inr (d2, p) \<and>
           predictions d2 = predictions d1 @ [p] \<and> status p = SCHEDULED \<and>
           scheduled_count d2 = 1"
proof -
  obtain mt file_id body ia ib ic rest
    where c0: "c = (mt, file_id, body, ia, ib, ic, rest)"
    by (cases c)
  obtain fa fb fc sched adm where "rest = (fa, fb, fc, sched, adm)"
    by (cases rest)
  with c0 have c: "c = (mt, file_id, body, ia, ib, ic, fa, fb, fc, sched, adm)"
    by simp
  define row where "row =
     \<lparr>prediction_id = next_prediction_id d1, status = SCHEDULED,
      media_type = mt, media_file_id = file_id, post_text = body,
      button_1_initial = ia, button_2_initial = ib, button_3_initial = ic,
      button_1_final = fa, button_2_final = fb, button_3_final = fc,
      scheduled_at = sched, activated_at = None,
      broadcast_started = False, broadcast_completed = False,
      created_by_admin_id = adm\<rparr>"
  have none: "filter (\<lambda>p. status p = SCHEDULED) (predictions d1) = []"
    using assms(2) by (simp add: scheduled_count_def)
  have lim: "column_limits row"
    using assms(3) by (simp add: acceptable_call_def c column_limits_def row_def)
  have ix: "ix_predictions_unique_scheduled (predictions d1) row"
    by (simp add: ix_predictions_unique_scheduled_def none)
  have fk: "fk_created_by_admin_id (users d1) row"
    using assms(3) cancel_existing_scheduled_users [OF assms(1)]
    by (simp add: acceptable_call_def c fk_created_by_admin_id_iff row_def)
  have ins: "insert_prediction d1 row =
      Inr (d1\<lparr>predictions := predictions d1 @ [row],
               next_prediction_id := next_prediction_id d1 + 1\<rparr>)"
    by (simp add: insert_prediction_def lim ix fk)
  have "call_create_prediction d c =
      Inr (d1\<lparr>predictions := predictions d1 @ [row],
               next_prediction_id := next_prediction_id d1 + 1\<rparr>, row)"
    unfolding call_create_prediction_def c create_prediction_def
    by (simp add: assms(1) Let_def ins flip: row_def)
  moreover have "status row = SCHEDULED" by (simp add: row_def)
  ultimately show ?thesis by (simp add: scheduled_count_def none)
qed

lemma call_create_prediction_rejected:
  assumes "cancel_existing_scheduled d = Inr d1" and "\<not> acceptable_call d c"
  shows "\<exists>e. call_create_prediction d c = Inl e"
proof -
  obtain mt file_id body ia ib ic rest
    where c0: "c = (mt, file_id, body, ia, ib, ic, rest)"
    by (cases c)
  obtain fa fb fc sched adm where "rest = (fa, fb, fc, sched, adm)"
    by (cases rest)
  with c0 have c: "c = (mt, file_id, body, ia, ib, ic, fa, fb, fc, sched, adm)"
    by simp
  define row where "row =
     \<lparr>prediction_id = next_prediction_id d1, status = SCHEDULED,
      media_type = mt, media_file_id = file_id, post_text = body,
      button_1_initial = ia, button_2_initial = ib, button_3_initial = ic,
      button_1_final = fa, button_2_final = fb, button_3_final = fc,
      scheduled_at = sched, activated_at = None,
      broadcast_started = False, broadcast_completed = False,
      created_by_admin_id = adm\<rparr>"
  have "\<not> column_limits row \<or> \<not> fk_created_by_admin_id (users d1) row"
    using assms(2) cancel_existing_scheduled_users [OF assms(1)]
    by (auto simp: acceptable_call_def c column_limits_def fk_created_by_admin_id_iff row_def)
  then have "\<exists>e. insert_prediction d1 row = Inl e"
    by (auto simp: insert_prediction_def)
  then obtain e where "insert_prediction d1 row = Inl e" by blast
  then have "call_create_prediction d c = Inl e"
    unfolding call_create_prediction_def c create_prediction_def
    by (simp add: assms(1) Let_def flip: row_def)
  then show ?thesis by blast
qed

text \<open>One session of \<open>create_prediction\<close> on a store with at most one SCHEDULED row.\<close>

lemma create_session_step:
  assumes "scheduled_count d \<le> 1"
  shows "\<exists>d1. cancel_existing_scheduled d = Inr d1 \<and> scheduled_count d1 = 0 \<and>
           (distinct (map prediction_id (predictions d)) \<longrightarrow>
              predictions d1 =
                map (\<lambda>q. if status q = SCHEDULED then q\<lparr>status := CANCELLED\<rparr> else q)
                  (predictions d)) \<and>
           (acceptable_call d c \<longrightarrow>
              (\<exists>p. call_create_prediction d c = Inr (create_session d c, p) \<and>
                   predictions (create_session d c) = predictions d1 @ [p] \<and>
                   status p = SCHEDULED \<and> scheduled_count (create_session d c) = 1)) \<and>
           (\<not> acceptable_call d c \<longrightarrow>
              (\<exists>e. call_create_prediction d c = Inl e) \<and> create_session d c = d)"
proof -
  obtain d1 where d1: "cancel_existing_scheduled d = Inr d1" "scheduled_count d1 = 0"
    "distinct (map prediction_id (predictions d)) \<longrightarrow>
       predictions d1 =
         map (\<lambda>q. if status q = SCHEDULED then q\<lparr>status := CANCELLED\<rparr> else q) (predictions d)"
    using cancel_existing_scheduled_ok [OF assms] by blast
  have ok: "\<exists>p. call_create_prediction d c = Inr (create_session d c, p) \<and>
        predictions (create_session d c) = predictions d1 @ [p] \<and>
        status p = SCHEDULED \<and> scheduled_count (create_session d c) = 1"
    if acc: "acceptable_call d c"
  proof -
    obtain d2 p where r: "call_create_prediction d c = Inr (d2, p)"
      "predictions d2 = predictions d1 @ [p]" "status p = SCHEDULED" "scheduled_count d2 = 1"
      using call_create_prediction_accepted [OF d1(1,2) acc] by blast
    have "create_session d c = d2"
      by (simp add: create_session_def DatabaseMiddleware_def r(1))
    then show ?thesis using r by blast
  qed
  have no: "(\<exists>e. call_create_prediction d c = Inl e) \<and> create_session d c = d"
    if rej: "\<not> acceptable_call d c"
  proof -
    obtain e where e: "call_create_prediction d c = Inl e"
      using call_create_prediction_rejected [OF d1(1) rej] by blast
    have "create_session d c = d"
      by (simp add: create_session_def DatabaseMiddleware_def e)
    then show ?thesis using e by blast
  qed
  show ?thesis using d1 ok no by blast
qed

lemma create_session_count:
  assumes "scheduled_count d \<le> 1"
  shows "scheduled_count (create_session d c) \<le> 1"
    and "acceptable_call d c \<or> scheduled_count d = 1 \<Longrightarrow> scheduled_count (create_session d c) = 1"
proof -
  have s: "(acceptable_call d c \<longrightarrow> scheduled_count (create_session d c) = 1) \<and>
      (\<not> acceptable_call d c \<longrightarrow> create_session d c = d)"
    using create_session_step [OF assms, of c] by blast
  show "scheduled_count (create_session d c) \<le> 1"
    using s assms by (cases "acceptable_call d c") simp_all
  show "scheduled_count (create_session d c) = 1"
    if "acceptable_call d c \<or> scheduled_count d = 1"
    using s that by (cases "acceptable_call d c") simp_all
qed

lemma create_session_users: "users (create_session d c) = users d"
proof (cases "call_create_prediction d c")
  case (Inl e)
  then show ?thesis by (simp add: create_session_def DatabaseMiddleware_def)
next
  case (Inr x)
  obtain d2 p where x: "x = (d2, p)" by (cases x)
  have "users d2 = users d"
    using Inr x
    by (auto simp: call_create_prediction_def create_prediction_def insert_prediction_def Let_def
        dest!: cancel_existing_scheduled_users split: prod.splits sum.splits if_splits)
  then show ?thesis using Inr x by (simp add: create_session_def DatabaseMiddleware_def)
qed

lemma acceptable_call_users: "users d' = users d \<Longrightarrow> acceptable_call d' c = acceptable_call d c"
  by (simp add: acceptable_call_def)

lemma create_all_count:
  "scheduled_count d \<le> 1 \<Longrightarrow>
   scheduled_count (create_all d calls) \<le> 1 \<and>
   (list_ex (acceptable_call d) calls \<or> scheduled_count d = 1 \<longrightarrow>
      scheduled_count (create_all d calls) = 1)"
proof (induction calls arbitrary: d)
  case Nil
  then show ?case by simp
next
  case (Cons c cs)
  let ?d = "create_session d c"
  have le: "scheduled_count ?d \<le> 1" using create_session_count(1) [OF Cons.prems] .
  have acc: "list_ex (acceptable_call ?d) cs = list_ex (acceptable_call d) cs"
    using acceptable_call_users [OF create_session_users [of d c]] by (simp add: list_ex_iff)
  have one: "scheduled_count ?d = 1" if "acceptable_call d c \<or> scheduled_count d = 1"
    using create_session_count(2) [OF Cons.prems that] .
  show ?case using Cons.IH [OF le] acc one by auto
qed

lemma passed_states_ok:
  "scheduled_count d \<le> 1 \<Longrightarrow>
   list_all (\<lambda>s. scheduled_count s \<le> 1) (passed_states d calls) \<and>
   length (passed_states d calls) = 2 * length calls"
proof (induction calls arbitrary: d)
  case Nil
  then show ?case by simp
next
  case (Cons c cs)
  obtain d1 where d1: "cancel_existing_scheduled d = Inr d1" "scheduled_count d1 = 0"
    using cancel_existing_scheduled_ok [OF Cons.prems] by blast
  have le: "scheduled_count (create_session d c) \<le> 1"
    using create_session_count(1) [OF Cons.prems] .
  show ?case using d1 le Cons.IH [OF le] by simp
qed

text \<open>
  C6. From a store with at most one SCHEDULED prediction, the first flush of
  \<open>create_prediction\<close> leaves no SCHEDULED row (with primary keys distinct, exactly the
  formerly SCHEDULED row has become CANCELLED and no other row has changed). For an
  acceptable call the second flush appends the new row as SCHEDULED and the session
  commits a store with exactly one SCHEDULED row. For any other call the insert raises and
  the session is rolled back to the store as it was, the cancellation undone. Hence every
  state a run of create sessions passes through, between the two flushes of a call as well
  as at the end of a session, holds at most one SCHEDULED prediction, and the run ends
  with exactly one as soon as one of its calls is acceptable.
\<close>

theorem create_prediction_one_scheduled:
  assumes "scheduled_count d \<le> 1"
  shows "(\<exists>d1. cancel_existing_scheduled d = Inr d1 \<and> scheduled_count d1 = 0 \<and>
            (distinct (map prediction_id (predictions d)) \<longrightarrow>
               predictions d1 =
                 map (\<lambda>q. if status q = SCHEDULED then q\<lparr>status := CANCELLED\<rparr> else q)
                   (predictions d)) \<and>
            (acceptable_call d c \<longrightarrow>
               (\<exists>p. call_create_prediction d c = Inr (create_session d c, p) \<and>
                    predictions (create_session d c) = predictions d1 @ [p] \<and>
                    status p = SCHEDULED \<and> scheduled_count (create_session d c) = 1)) \<and>
            (\<not> acceptable_call d c \<longrightarrow>
               (\<exists>e. call_create_prediction d c = Inl e) \<and> create_session d c = d)) \<and>
         list_all (\<lambda>s. scheduled_count s \<le> 1) (passed_states d calls) \<and>
         length (passed_states d calls) = 2 * length calls \<and>
         scheduled_count (create_all d calls) \<le> 1 \<and>
         (list_ex (acceptable_call d) calls \<longrightarrow> scheduled_count (create_all d calls) = 1)"
proof -
  note step = create_session_step [OF assms, of c]
  note states = passed_states_ok [OF assms, of calls]
  note count = create_all_count [OF assms, of calls]
  show ?thesis
    apply (rule conjI)
     apply (rule step)
    using states count apply simp
    done
qed


theorem create_prediction_one_scheduled_witness:
  "scheduled_count sample_db \<le> 1 \<and>
   acceptable_call sample_db sample_call \<and>
   scheduled_count (create_session sample_db sample_call) = 1 \<and>
   \<not> acceptable_call sample_db long_label_call \<and>
   create_session sample_db long_label_call = sample_db \<and>
   \<not> acceptable_call sample_db unknown_admin_call \<and>
   create_session sample_db unknown_admin_call = sample_db \<and>
   list_all (\<lambda>s. scheduled_count s \<le> 1)
     (passed_states sample_db [sample_call, long_label_call, unknown_admin_call, sample_call]) \<and>
   length (passed_states sample_db
             [sample_call, long_label_call, unknown_admin_call, sample_call]) = 8 \<and>
   scheduled_count
     (create_all sample_db [sample_call, long_label_call, unknown_admin_call, sample_call]) = 1"
proof -
  let ?calls = "[sample_call, long_label_call, unknown_admin_call, sample_call]"
  have h: "scheduled_count sample_db \<le> 1"
    by (simp add: scheduled_count_def sample_db_def sample_prediction_def)
  have a1: "acceptable_call sample_db sample_call"
    by (simp add: acceptable_call_def sample_call_def)
  have a2: "\<not> acceptable_call sample_db long_label_call"
    by (simp add: acceptable_call_def long_label_call_def)
  have a3: "\<not> acceptable_call sample_db unknown_admin_call"
    by (simp add: acceptable_call_def unknown_admin_call_def sample_db_def sample_users_def)
  have ex: "list_ex (acceptable_call sample_db) ?calls"
    using a1 by simp
  have s1: "scheduled_count (create_session sample_db sample_call) = 1"
    using create_prediction_one_scheduled [OF h, of sample_call ?calls] a1 by blast
  have s2: "create_session sample_db long_label_call = sample_db"
    using create_prediction_one_scheduled [OF h, of long_label_call ?calls] a2 by blast
  have s3: "create_session sample_db unknown_admin_call = sample_db"
    using create_prediction_one_scheduled [OF h, of unknown_admin_call ?calls] a3 by blast
  have all: "list_all (\<lambda>s. scheduled_count s \<le> 1) (passed_states sample_db ?calls)"
    and len: "length (passed_states sample_db ?calls) = 2 * length ?calls"
    and one: "list_ex (acceptable_call sample_db) ?calls \<longrightarrow>
      scheduled_count (create_all sample_db ?calls) = 1"
    using create_prediction_one_scheduled [OF h, of sample_call ?calls] by blast+
  show ?thesis
    using h a1 a2 a3 s1 s2 s3 all len one ex by simp
qed

section \<open>Choice ledger\<close>

lemma insert_choice_blocks:
  assumes "insert_choice d c = Inr d1"
    and "telegram_user_id c' = telegram_user_id c"
    and "choice_year c' = choice_year c"
    and "choice_month c' = choice_month c"
  shows "insert_choice d1 c' = Inl (IntegrityError UniqueViolation)"
proof -
  have "choices d1 = choices d @ [c]"
    using assms(1) by (auto simp: insert_choice_def split: if_splits)
  then have "\<not> uq_user_prediction_choice_per_month (choices d1) c'"
    using assms(2-4) by (simp add: uq_user_prediction_choice_per_month_def)
  then show ?thesis by (simp add: insert_choice_def)
qed

text \<open>
  C5, on the code. Once \<open>record_user_choice\<close> has stored a choice for a recipient in a
  calendar period, every later call for the same recipient and period is rejected by the
  unique constraint \<open>uq_user_prediction_choice_per_month\<close>, whatever the \<open>is_test\<close>
  flags of the two calls: a repeated non-test choice is rejected, as the claim says, and so
  is a test choice after any choice, and a non-test choice after a test choice.
\<close>

theorem record_user_choice_second_rejected:
  assumes "record_user_choice d now user pid button test = Inr (d1, c1)"
  shows "record_user_choice d1 now user pid' button' test' = Inl (IntegrityError UniqueViolation)"
proof -
  let ?c = "\<lparr>choice_id = next_choice_id d, telegram_user_id = user,
             choice_prediction_id = pid, selected_button = button,
             choice_year = year now, choice_month = month now, is_test = test\<rparr>"
  let ?c' = "\<lparr>choice_id = next_choice_id d1, telegram_user_id = user,
             choice_prediction_id = pid', selected_button = button',
             choice_year = year now, choice_month = month now, is_test = test'\<rparr>"
  have "insert_choice d ?c = Inr d1"
    using assms by (auto simp: record_user_choice_def Let_def split: sum.splits)
  then have "insert_choice d1 ?c' = Inl (IntegrityError UniqueViolation)"
    by (rule insert_choice_blocks) simp_all
  then show ?thesis by (simp add: record_user_choice_def Let_def)
qed

text \<open>
  The failing input of C5: in an empty choice table, a test choice of recipient 10 is
  stored, and a second test choice of the same recipient in the same month raises
  \<open>IntegrityError\<close>.
\<close>

theorem record_user_choice_test_collision:
  "(case record_user_choice sample_db sample_time 10 1 1 True of
      Inl e \<Rightarrow> False
    | Inr (d1, c1) \<Rightarrow>
        is_test c1 \<and>
        record_user_choice d1 sample_time 10 1 2 True = Inl (IntegrityError UniqueViolation))"
proof -
  obtain d1 c1 where r: "record_user_choice sample_db sample_time 10 1 1 True = Inr (d1, c1)"
    and t: "is_test c1"
    by (simp add: record_user_choice_def insert_choice_def uq_user_prediction_choice_per_month_def
        fk_prediction_id_def sample_db_def sample_prediction_def Let_def)
  show ?thesis
    using r t record_user_choice_second_rejected [OF r, of 1 2 True] by simp
qed

section \<open>Monthly statistics\<close>

lemma sum_list_ones: "sum_list (map (\<lambda>c. Suc 0) xs) = length xs"
  by (induction xs) simp_all

lemma length_filter_three:
  assumes "\<forall>c \<in> set xs. f c \<in> {1::int, 2, 3}"
  shows "length (filter (\<lambda>c. f c = 1) xs) + length (filter (\<lambda>c. f c = 2) xs) +
         length (filter (\<lambda>c. f c = 3) xs) = length xs"
  using assms by (induction xs) auto

text \<open>
  The only writer of choices is \<open>record_user_choice\<close>, called only by
  \<open>handle_button_selection\<close> behind its guard on the button number: a store in which
  every choice has a selected button in 1..3 and is no test choice stays so.
\<close>

lemma record_user_choice_row:
  "record_user_choice d now user pid button test = Inr (d', c) \<Longrightarrow>
   choices d' = choices d @ [c] \<and> selected_button c = button \<and> is_test c = test"
  by (auto simp: record_user_choice_def insert_choice_def Let_def split: if_splits)

lemma handle_button_selection_buttons:
  assumes "handle_button_selection int_of edit_ok now callback d = Inr (d', r)"
    and "list_all (\<lambda>c. selected_button c \<in> {1, 2, 3} \<and> \<not> is_test c) (choices d)"
  shows "list_all (\<lambda>c. selected_button c \<in> {1, 2, 3} \<and> \<not> is_test c) (choices d')"
proof (cases "d' = d")
  case True
  then show ?thesis using assms(2) by simp
next
  case False
  then obtain user pid button c where
    "button \<in> {1::int, 2, 3}" "record_user_choice d now user pid button False = Inr (d', c)"
    using assms(1)
    by (auto simp: handle_button_selection_def Let_def
        split: if_splits option.splits sum.splits prod.splits bool.splits)
  then show ?thesis
    using assms(2) record_user_choice_row [of d now user pid button False d' c] by auto
qed

text \<open>
  C8. The report's responded count is the number of stored non-test choices of the current
  year and month, and each per-option count is the number of those with that selected
  button; the report is the same when every test choice is removed from the store, so test
  choices contribute to no count. Under the data model's invariant that a stored choice has
  a selected button in 1..3, the three per-option counts sum to the responded count.
\<close>

theorem monthly_statistics_counts:
  "active_users (get_current_month_statistics d now) = length (month_rows d now) \<and>
   button_1_count (get_current_month_statistics d now) =
     length (filter (\<lambda>c. selected_button c = 1) (month_rows d now)) \<and>
   button_2_count (get_current_month_statistics d now) =
     length (filter (\<lambda>c. selected_button c = 2) (month_rows d now)) \<and>
   button_3_count (get_current_month_statistics d now) =
     length (filter (\<lambda>c. selected_button c = 3) (month_rows d now)) \<and>
   get_current_month_statistics (d\<lparr>choices := filter (\<lambda>c. \<not> is_test c) (choices d)\<rparr>) now =
     get_current_month_statistics d now \<and>
   ((\<forall>c \<in> set (month_rows d now). selected_button c \<in> {1, 2, 3}) \<longrightarrow>
      button_1_count (get_current_month_statistics d now) +
      button_2_count (get_current_month_statistics d now) +
      button_3_count (get_current_month_statistics d now) =
      active_users (get_current_month_statistics d now))"
proof -
  have f: "filter (\<lambda>c. choice_year c = year now \<and> choice_month c = month now \<and> is_test c = False)
             (filter (\<lambda>c. \<not> is_test c) (choices d)) =
           filter (\<lambda>c. choice_year c = year now \<and> choice_month c = month now \<and> is_test c = False)
             (choices d)"
    unfolding filter_filter by (rule filter_cong) auto
  have same: "get_current_month_statistics (d\<lparr>choices := filter (\<lambda>c. \<not> is_test c) (choices d)\<rparr>) now =
      get_current_month_statistics d now"
  proof -
    have c: "choices (d\<lparr>choices := filter (\<lambda>c. \<not> is_test c) (choices d)\<rparr>) =
        filter (\<lambda>c. \<not> is_test c) (choices d)"
      and u: "users (d\<lparr>choices := filter (\<lambda>c. \<not> is_test c) (choices d)\<rparr>) = users d"
      by simp_all
    show ?thesis
      unfolding get_current_month_statistics_def Let_def by (simp only: c u f)
  qed
  have counts: "active_users (get_current_month_statistics d now) = length (month_rows d now)"
    "button_1_count (get_current_month_statistics d now) =
       length (filter (\<lambda>c. selected_button c = 1) (month_rows d now))"
    "button_2_count (get_current_month_statistics d now) =
       length (filter (\<lambda>c. selected_button c = 2) (month_rows d now))"
    "button_3_count (get_current_month_statistics d now) =
       length (filter (\<lambda>c. selected_button c = 3) (month_rows d now))"
    by (simp_all add: get_current_month_statistics_def month_rows_def Let_def sum_list_ones)
  show ?thesis
    using same length_filter_three [of "month_rows d now" selected_button]
    by (simp only: counts) simp
qed

theorem monthly_statistics_counts_witness:
  "list_all (\<lambda>c. selected_button c \<in> {1, 2, 3}) (month_rows mixed_choice_db sample_time) \<and>
   active_users (get_current_month_statistics mixed_choice_db sample_time) = 1 \<and>
   button_1_count (get_current_month_statistics mixed_choice_db sample_time) = 0 \<and>
   button_2_count (get_current_month_statistics mixed_choice_db sample_time) = 1 \<and>
   button_3_count (get_current_month_statistics mixed_choice_db sample_time) = 0"
proof -
  have rows: "month_rows mixed_choice_db sample_time =
      [\<lparr>choice_id = 1, telegram_user_id = 10, choice_prediction_id = 1, selected_button = 2,
        choice_year = 2024, choice_month = 5, is_test = False\<rparr>]"
    by (simp add: month_rows_def mixed_choice_db_def sample_time_def)
  have h: "\<forall>c \<in> set (month_rows mixed_choice_db sample_time). selected_button c \<in> {1, 2, 3}"
    by (simp add: rows)
  show ?thesis
    using h monthly_statistics_counts [of mixed_choice_db sample_time] by (simp add: rows)
qed

section \<open>Admin test selection\<close>

lemma handle_test_button_selection_store:
  "handle_test_button_selection int_of edit_ok callback d = Inr (d', r) \<Longrightarrow> d' = d"
  by (auto simp: handle_test_button_selection_def Let_def
      split: if_splits option.splits sum.splits prod.splits)

text \<open>
  C9. Whatever the callback query, the parse of its numbers and the outcome of the
  keyboard edit, the session of \<open>handle_test_button_selection\<close> leaves the store as it
  was: the handler only reads the prediction, and no choice is recorded.
\<close>

theorem test_selection_writes_nothing:
  "fst (DatabaseMiddleware (handle_test_button_selection int_of edit_ok callback) d) = d \<and>
   choices (fst (DatabaseMiddleware (handle_test_button_selection int_of edit_ok callback) d)) =
     choices d"
proof (cases "handle_test_button_selection int_of edit_ok callback d")
  case (Inl e)
  then show ?thesis by (simp add: DatabaseMiddleware_def)
next
  case (Inr x)
  obtain d' r where x: "x = (d', r)" by (cases x)
  then have "d' = d" using Inr handle_test_button_selection_store by blast
  then show ?thesis using Inr x by (simp add: DatabaseMiddleware_def)
qed

lemma split_test: "split CHR '':'' ''test_select:1:2'' = [''test_select'', ''1'', ''2'']"
  by simp

lemma split_user: "split CHR '':'' ''select:1:2'' = [''select'', ''1'', ''2'']"
  by simp

lemma dec1: "int_of_decimal ''1'' = Some 1" and dec2: "int_of_decimal ''2'' = Some 2"
  by (simp_all add: int_of_decimal_def)

lemma by_id_sample: "get_prediction_by_id sample_db 1 = Inr (Some sample_prediction)"
  by (simp add: get_prediction_by_id_def sample_db_def sample_prediction_def)

theorem test_selection_writes_nothing_witness:
  "DatabaseMiddleware (handle_test_button_selection int_of_decimal True test_callback) sample_db =
     (sample_db, Inr \<lparr>answered = answer_test_choice_not_counted,
                      edited_markup = Some (get_selected_keyboard sample_prediction 2)\<rparr>) \<and>
   choices (fst (DatabaseMiddleware (handle_test_button_selection int_of_decimal True test_callback)
                   sample_db)) = [] \<and>
   length (choices (fst (DatabaseMiddleware
                           (handle_button_selection int_of_decimal True sample_time user_callback)
                           sample_db))) = 1"
proof -
  have a: "handle_test_button_selection int_of_decimal True test_callback sample_db =
      Inr (sample_db, \<lparr>answered = answer_test_choice_not_counted,
                       edited_markup = Some (get_selected_keyboard sample_prediction 2)\<rparr>)"
    by (simp add: handle_test_button_selection_def test_callback_def split_test dec1 dec2
        by_id_sample Let_def)
  have b: "length (choices (fst (DatabaseMiddleware
      (handle_button_selection int_of_decimal True sample_time user_callback) sample_db))) = 1"
    by (simp add: DatabaseMiddleware_def handle_button_selection_def user_callback_def split_user
        dec1 dec2 get_prediction_by_id_def Let_def has_user_chosen_this_month_def
        record_user_choice_def
        insert_choice_def uq_user_prediction_choice_per_month_def fk_prediction_id_def
        sample_db_def sample_prediction_def)
  have c: "choices sample_db = []" by (simp add: sample_db_def)
  show ?thesis
    using test_selection_writes_nothing [of int_of_decimal True test_callback sample_db] a b c
    by (simp add: DatabaseMiddleware_def)
qed

section \<open>Activation and its guard\<close>

lemma activate_prediction_rows:
  assumes dist: "distinct (map prediction_id (predictions d))"
    and act: "length (filter (\<lambda>q. status q = ACTIVE) (predictions d)) \<le> 1"
  shows "activate_prediction d p now =
           Inr (d\<lparr>predictions :=
                    map (\<lambda>q. if prediction_id q = prediction_id p
                                then q\<lparr>status := ACTIVE, activated_at := Some now,
                                       broadcast_started := True\<rparr>
                              else if status q = ACTIVE then q\<lparr>status := ARCHIVED\<rparr>
                              else q)
                      (predictions d)\<rparr>,
                p\<lparr>status := ACTIVE, activated_at := Some now, broadcast_started := True\<rparr>)"
proof (cases "filter (\<lambda>q. status q = ACTIVE) (predictions d)")
  case Nil
  then have none: "\<And>q. q \<in> set (predictions d) \<Longrightarrow> status q \<noteq> ACTIVE"
    by (simp add: filter_empty_conv)
  have g: "get_active_prediction d = Inr None"
    using Nil by (simp add: get_active_prediction_def)
  have "map (\<lambda>q. if prediction_id q = prediction_id p
                    then q\<lparr>status := ACTIVE, activated_at := Some now, broadcast_started := True\<rparr>
                  else q) (predictions d) =
        map (\<lambda>q. if prediction_id q = prediction_id p
                    then q\<lparr>status := ACTIVE, activated_at := Some now, broadcast_started := True\<rparr>
                  else if status q = ACTIVE then q\<lparr>status := ARCHIVED\<rparr>
                  else q) (predictions d)"
    by (rule map_cong) (simp_all add: none)
  then show ?thesis
    by (simp add: activate_prediction_def g update_prediction_def Let_def)
next
  case (Cons a rest)
  then have f: "filter (\<lambda>q. status q = ACTIVE) (predictions d) = [a]" using act by simp
  have g: "get_active_prediction d = Inr (Some a)"
    using f by (simp add: get_active_prediction_def)
  have a: "a \<in> set (predictions d)" "status a = ACTIVE"
    using filter_singleton(1,2) [OF f] by simp_all
  have only: "q = a" if "q \<in> set (predictions d)" "status q = ACTIVE" for q
    using filter_singleton(3) [OF f] that by simp
  have inj: "inj_on prediction_id (set (predictions d))"
    using dist by (simp add: distinct_map)
  have key: "(prediction_id q = prediction_id a) = (status q = ACTIVE)"
    if q: "q \<in> set (predictions d)" for q
  proof
    assume "prediction_id q = prediction_id a"
    then have "q = a" using inj q a(1) by (simp add: inj_on_def)
    then show "status q = ACTIVE" using a(2) by simp
  next
    assume "status q = ACTIVE"
    then show "prediction_id q = prediction_id a" using only [OF q] by simp
  qed
  define g1 where "g1 = (\<lambda>q::Prediction. if prediction_id q = prediction_id a
      then q\<lparr>status := ARCHIVED\<rparr> else q)"
  define g2 where "g2 = (\<lambda>q::Prediction. if prediction_id q = prediction_id p
      then q\<lparr>status := ACTIVE, activated_at := Some now, broadcast_started := True\<rparr> else q)"
  define h where "h = (\<lambda>q::Prediction. if prediction_id q = prediction_id p
      then q\<lparr>status := ACTIVE, activated_at := Some now, broadcast_started := True\<rparr>
      else if status q = ACTIVE then q\<lparr>status := ARCHIVED\<rparr> else q)"
  have "g2 (g1 q) = h q" if q: "q \<in> set (predictions d)" for q
    using key [OF q] by (simp add: g1_def g2_def h_def)
  then have rows: "map g2 (map g1 (predictions d)) = map h (predictions d)"
    by simp
  have "activate_prediction d p now =
      Inr (d\<lparr>predictions := map g2 (map g1 (predictions d))\<rparr>,
           p\<lparr>status := ACTIVE, activated_at := Some now, broadcast_started := True\<rparr>)"
    by (simp add: activate_prediction_def g update_prediction_def Let_def g1_def g2_def)
  then show ?thesis
    unfolding rows by (simp add: h_def)
qed

text \<open>
  C4, as the code has it. The status guard is in \<open>broadcast_prediction_job\<close>, the only
  caller of \<open>activate_prediction\<close>: for a prediction whose status is not SCHEDULED the job
  returns with the store, and everything else, unchanged. \<open>activate_prediction\<close> itself
  checks nothing: on a store with distinct primary keys and at most one ACTIVE prediction
  it succeeds for any prediction, and the store it leaves is the old one with the given
  row ACTIVE (\<open>activated_at\<close> the clock reading, \<open>broadcast_started\<close> set), every other
  ACTIVE row ARCHIVED, and no other row changed.
\<close>

theorem activate_guard_in_job:
  "(get_prediction_by_id (db w) pid = Inr (Some p) \<and> status p \<noteq> SCHEDULED \<longrightarrow>
      broadcast_prediction_job api now pid w = w) \<and>
   (distinct (map prediction_id (predictions d)) \<and>
    length (filter (\<lambda>q. status q = ACTIVE) (predictions d)) \<le> 1 \<longrightarrow>
      activate_prediction d p' now' =
        Inr (d\<lparr>predictions :=
                 map (\<lambda>q. if prediction_id q = prediction_id p'
                             then q\<lparr>status := ACTIVE, activated_at := Some now',
                                    broadcast_started := True\<rparr>
                           else if status q = ACTIVE then q\<lparr>status := ARCHIVED\<rparr>
                           else q)
                   (predictions d)\<rparr>,
             p'\<lparr>status := ACTIVE, activated_at := Some now', broadcast_started := True\<rparr>))"
  using activate_prediction_rows [of d p' now']
  by (simp add: broadcast_prediction_job_def)

theorem activate_guard_in_job_witness:
  "get_prediction_by_id (db cancelled_world) 1 = Inr (Some cancelled_prediction) \<and>
   status cancelled_prediction \<noteq> SCHEDULED \<and>
   broadcast_prediction_job failing_api sample_time 1 cancelled_world = cancelled_world \<and>
   distinct (map prediction_id (predictions two_row_db)) \<and>
   length (filter (\<lambda>q. status q = ACTIVE) (predictions two_row_db)) \<le> 1 \<and>
   activate_prediction two_row_db cancelled_prediction sample_time =
     Inr (two_row_db\<lparr>predictions :=
            [activated_prediction, running_prediction\<lparr>status := ARCHIVED\<rparr>]\<rparr>,
          activated_prediction)"
proof -
  have g: "get_prediction_by_id (db cancelled_world) 1 = Inr (Some cancelled_prediction)"
    by (simp add: get_prediction_by_id_def cancelled_world_def cancelled_db_def
        cancelled_prediction_def sample_prediction_def)
  have s: "status cancelled_prediction \<noteq> SCHEDULED"
    by (simp add: cancelled_prediction_def)
  have dist: "distinct (map prediction_id (predictions two_row_db))"
    by (simp add: two_row_db_def cancelled_prediction_def running_prediction_def
        sample_prediction_def)
  have l: "length (filter (\<lambda>q. status q = ACTIVE) (predictions two_row_db)) \<le> 1"
    by (simp add: two_row_db_def cancelled_prediction_def running_prediction_def)
  have rows: "map (\<lambda>q. if prediction_id q = prediction_id cancelled_prediction
                          then q\<lparr>status := ACTIVE, activated_at := Some sample_time,
                                 broadcast_started := True\<rparr>
                        else if status q = ACTIVE then q\<lparr>status := ARCHIVED\<rparr>
                        else q)
                (predictions two_row_db) =
              [activated_prediction, running_prediction\<lparr>status := ARCHIVED\<rparr>]"
    by (simp add: two_row_db_def cancelled_prediction_def running_prediction_def
        activated_prediction_def sample_prediction_def)
  have job: "broadcast_prediction_job failing_api sample_time 1 cancelled_world = cancelled_world"
    using g s
      activate_guard_in_job [of cancelled_world 1 cancelled_prediction failing_api sample_time
        two_row_db cancelled_prediction sample_time]
    by blast
  have actv: "activate_prediction two_row_db cancelled_prediction sample_time =
     Inr (two_row_db\<lparr>predictions :=
            [activated_prediction, running_prediction\<lparr>status := ARCHIVED\<rparr>]\<rparr>,
          activated_prediction)"
    using dist l
      activate_guard_in_job [of cancelled_world 1 cancelled_prediction failing_api sample_time
        two_row_db cancelled_prediction sample_time]
    by (simp add: rows activated_prediction_def)
  show ?thesis using g s dist l job actv by simp
qed

text \<open>
  C4, as the claim has it (\<open>activate\<close> on a prediction that is not SCHEDULED fails and
  changes no row), fails: on a CANCELLED prediction \<open>activate_prediction\<close> returns
  normally and the row is ACTIVE afterwards.
\<close>

theorem activate_cancelled_prediction:
  "activate_prediction cancelled_db cancelled_prediction sample_time =
     Inr (cancelled_db\<lparr>predictions := [activated_prediction]\<rparr>, activated_prediction) \<and>
   status activated_prediction \<noteq> status cancelled_prediction \<and>
   predictions (cancelled_db\<lparr>predictions := [activated_prediction]\<rparr>) \<noteq> predictions cancelled_db"
  by (simp add: activate_prediction_def get_active_prediction_def update_prediction_def
      cancelled_db_def cancelled_prediction_def activated_prediction_def sample_db_def
      sample_prediction_def)


section \<open>Schedule monitor\<close>

lemma filter_by_key:
  "distinct (map f xs) \<Longrightarrow> x \<in> set xs \<Longrightarrow> filter (\<lambda>y. f y = f x) xs = [x]"
proof (induction xs)
  case Nil
  then show ?case by simp
next
  case (Cons y ys)
  have head: "f y \<notin> set (map f ys)" and tail: "distinct (map f ys)"
    using Cons.prems(1) by simp_all
  show ?case
  proof (cases "y = x")
    case True
    have "f z \<noteq> f x" if "z \<in> set ys" for z
    proof
      assume "f z = f x"
      moreover have "f z \<in> set (map f ys)" using that by simp
      ultimately show False using head True by simp
    qed
    then have "filter (\<lambda>y. f y = f x) ys = []"
      by (simp add: filter_empty_conv)
    then show ?thesis using True by simp
  next
    case False
    then have x: "x \<in> set ys" using Cons.prems(2) by simp
    then have "f x \<in> set (map f ys)" by simp
    then have "f y \<noteq> f x" using head by metis
    moreover have "filter (\<lambda>y. f y = f x) ys = [x]"
      using Cons.IH tail x by simp
    ultimately show ?thesis by simp
  qed
qed

lemma filter_map_key:
  "(\<And>q. f (g q) = f q) \<Longrightarrow>
   filter (\<lambda>q. f q = k) (map g xs) = map g (filter (\<lambda>q. f q = k) xs)"
  by (induction xs) simp_all

lemma broadcast_prediction_nobody:
  "calls_made (broadcast_prediction api p [] kb cb n) = n"
  by (simp add: broadcast_prediction_def broadcast_batches.simps)

text \<open>What one run of the job does to a store whose scheduled prediction is p.\<close>

lemma broadcast_prediction_job_scheduled:
  fixes p :: Prediction and now :: datetime and api :: Bot and w :: world
  assumes dist: "distinct (map prediction_id (predictions (db w)))"
    and act: "length (filter (\<lambda>q. status q = ACTIVE) (predictions (db w))) \<le> 1"
    and sched: "filter (\<lambda>q. status q = SCHEDULED) (predictions (db w)) = [p]"
    and fresh: "\<not> broadcast_started p"
  defines "p1 \<equiv> p\<lparr>status := ACTIVE, activated_at := Some now, broadcast_started := True\<rparr>"
  defines "w1 \<equiv> broadcast_prediction_job api now (prediction_id p) w"
  shows "get_prediction_by_id (db w1) (prediction_id p) =
           Inr (Some (p1\<lparr>broadcast_completed := True\<rparr>))"
    and "get_scheduled_prediction (db w1) = Inr None"
    and "api_calls w1 =
           calls_made (broadcast_prediction api p1 (get_all_user_telegram_ids (db w))
                         (get_prediction_keyboard p1 False) None (api_calls w))"
proof -
  let ?ps = "predictions (db w)"
  let ?k = "prediction_id p"
  have p_in: "p \<in> set ?ps" and p_st: "status p = SCHEDULED"
    using filter_singleton(1,2) [OF sched] by simp_all
  have only: "q = p" if "q \<in> set ?ps" "status q = SCHEDULED" for q
    using filter_singleton(3) [OF sched] that by simp
  have by_id: "filter (\<lambda>q. prediction_id q = ?k) ?ps = [p]"
    using filter_by_key [OF dist p_in] .
  have get: "get_prediction_by_id (db w) ?k = Inr (Some p)"
    by (simp add: get_prediction_by_id_def by_id)
  \<comment> \<open>the archiving step\<close>
  obtain g1 :: "Prediction \<Rightarrow> Prediction" where
    g1: "get_active_prediction (db w) = Inr None \<and> g1 = (\<lambda>q. q) \<or>
         (\<exists>a. get_active_prediction (db w) = Inr (Some a) \<and> a \<in> set ?ps \<and> status a = ACTIVE \<and>
            g1 = (\<lambda>q. if prediction_id q = prediction_id a then q\<lparr>status := ARCHIVED\<rparr> else q))"
  proof (cases "filter (\<lambda>q. status q = ACTIVE) ?ps")
    case Nil
    then have "get_active_prediction (db w) = Inr None"
      by (simp add: get_active_prediction_def)
    then show ?thesis using that by blast
  next
    case (Cons a rest)
    then have f: "filter (\<lambda>q. status q = ACTIVE) ?ps = [a]" using act by simp
    then have "get_active_prediction (db w) = Inr (Some a)"
      by (simp add: get_active_prediction_def)
    moreover have "a \<in> set ?ps" "status a = ACTIVE"
      using filter_singleton(1,2) [OF f] by simp_all
    ultimately show ?thesis using that by blast
  qed
  define g2 where "g2 = (\<lambda>q::Prediction. if prediction_id q = ?k
      then q\<lparr>status := ACTIVE, activated_at := Some now, broadcast_started := True\<rparr> else q)"
  define g3 where "g3 = (\<lambda>q::Prediction. if prediction_id q = ?k
      then q\<lparr>broadcast_completed := True\<rparr> else q)"
  define d2 where "d2 = (db w)\<lparr>predictions := map g2 (map g1 ?ps)\<rparr>"
  define d3 where "d3 = (db w)\<lparr>predictions := map g3 (map g2 (map g1 ?ps))\<rparr>"
  have activate: "activate_prediction (db w) p now = Inr (d2, p1)"
    using g1
    by (auto simp: activate_prediction_def update_prediction_def d2_def g2_def p1_def Let_def
        comp_def)
  have complete: "fst (mark_broadcast_completed d2 p1) = d3"
    by (simp add: mark_broadcast_completed_def update_prediction_def d2_def d3_def g3_def p1_def)
  have users: "get_all_user_telegram_ids d2 = get_all_user_telegram_ids (db w)"
    by (simp add: get_all_user_telegram_ids_def d2_def)
  have job: "w1 = (if get_all_user_telegram_ids (db w) = [] then w\<lparr>db := d3\<rparr>
      else w\<lparr>db := d3, api_calls := calls_made (broadcast_prediction api p1
             (get_all_user_telegram_ids (db w)) (get_prediction_keyboard p1 False) None
             (api_calls w))\<rparr>)"
    unfolding w1_def broadcast_prediction_job_def
    using get p_st fresh activate complete users by (simp add: Let_def)
  \<comment> \<open>properties of the three row updates\<close>
  have g1_id: "prediction_id (g1 q) = prediction_id q" for q
    using g1 by auto
  have g2_id: "prediction_id (g2 q) = prediction_id q" for q
    by (simp add: g2_def)
  have g3_id: "prediction_id (g3 q) = prediction_id q" for q
    by (simp add: g3_def)
  have g1_p: "g1 p = p"
  proof -
    have "prediction_id p \<noteq> prediction_id a" if "a \<in> set ?ps" "status a = ACTIVE" for a
    proof
      assume "prediction_id p = prediction_id a"
      then have "p = a"
        using dist p_in that(1) by (simp add: distinct_map inj_on_def)
      then show False using that(2) p_st by simp
    qed
    then show ?thesis using g1 by auto
  qed
  have g1_sched: "status (g1 q) = SCHEDULED \<Longrightarrow> status q = SCHEDULED" for q
    using g1 by (auto split: if_splits)
  have row: "g3 (g2 (g1 p)) = p1\<lparr>broadcast_completed := True\<rparr>"
    by (simp add: g1_p g2_def g3_def p1_def)
  have no_sched: "status (g3 (g2 (g1 q))) \<noteq> SCHEDULED" if "q \<in> set ?ps" for q
  proof (cases "prediction_id q = ?k")
    case True
    then show ?thesis by (simp add: g3_def g2_def g1_id)
  next
    case False
    then have "q \<noteq> p" by blast
    then have "status q \<noteq> SCHEDULED" using only [OF that] by blast
    then have "status (g1 q) \<noteq> SCHEDULED" using g1_sched by blast
    then show ?thesis using False by (simp add: g3_def g2_def g1_id)
  qed
  have db1: "db w1 = d3" using job by simp
  have rows: "predictions d3 = map g3 (map g2 (map g1 ?ps))"
    by (simp add: d3_def)
  have "filter (\<lambda>q. prediction_id q = ?k) (map g3 (map g2 (map g1 ?ps))) =
      map g3 (map g2 (map g1 (filter (\<lambda>q. prediction_id q = ?k) ?ps)))"
    by (simp only: filter_map_key [of prediction_id, OF g3_id]
        filter_map_key [of prediction_id, OF g2_id] filter_map_key [of prediction_id, OF g1_id])
  then have "filter (\<lambda>q. prediction_id q = ?k) (predictions d3) = [g3 (g2 (g1 p))]"
    by (simp only: rows by_id list.map)
  then show "get_prediction_by_id (db w1) ?k = Inr (Some (p1\<lparr>broadcast_completed := True\<rparr>))"
    by (simp add: get_prediction_by_id_def db1 row)
  have "\<forall>x \<in> set (map (\<lambda>q. g3 (g2 (g1 q))) ?ps). status x \<noteq> SCHEDULED"
    using no_sched by auto
  then have "filter (\<lambda>q. status q = SCHEDULED) (map (\<lambda>q. g3 (g2 (g1 q))) ?ps) = []"
    by (simp only: filter_empty_conv not_False_eq_True simp_thms)
  then have "filter (\<lambda>q. status q = SCHEDULED) (predictions d3) = []"
    by (simp add: rows comp_def)
  then show "get_scheduled_prediction (db w1) = Inr None"
    by (simp add: get_scheduled_prediction_def db1)
  show "api_calls w1 =
           calls_made (broadcast_prediction api p1 (get_all_user_telegram_ids (db w))
                         (get_prediction_keyboard p1 False) None (api_calls w))"
    using job by (simp add: broadcast_prediction_nobody)
qed


text \<open>
  C1. Let the store satisfy its constraints (distinct primary keys, at most one ACTIVE
  prediction) and let p be its one SCHEDULED prediction, due and with
  \<open>broadcast_started\<close> false. The first due-check activates p (status ACTIVE,
  \<open>activated_at\<close> the first run's clock reading, \<open>broadcast_started\<close> true), makes
  exactly the transport calls of one \<open>broadcast_prediction\<close> over the recipient list
  (none when the list is empty, where the job skips the call), and marks the broadcast
  completed; no SCHEDULED prediction remains. The second due-check returns the world
  of the first unchanged: no activation, no send. So does the job itself when it fires
  again for p.
\<close>

theorem due_check_twice:
  assumes dist: "distinct (map prediction_id (predictions (db w)))"
    and act: "length (filter (\<lambda>q. status q = ACTIVE) (predictions (db w))) \<le> 1"
    and sched: "filter (\<lambda>q. status q = SCHEDULED) (predictions (db w)) = [p]"
    and due: "instant (scheduled_at p) \<le> instant now1"
    and fresh: "\<not> broadcast_started p"
  shows "let w1 = check_scheduled_predictions api now1 job_now1 w;
             w2 = check_scheduled_predictions api now2 job_now2 w1;
             p1 = p\<lparr>status := ACTIVE, activated_at := Some job_now1, broadcast_started := True\<rparr>
         in get_prediction_by_id (db w1) (prediction_id p) =
              Inr (Some (p1\<lparr>broadcast_completed := True\<rparr>)) \<and>
            get_scheduled_prediction (db w1) = Inr None \<and>
            api_calls w1 =
              calls_made (broadcast_prediction api p1 (get_all_user_telegram_ids (db w))
                            (get_prediction_keyboard p1 False) None (api_calls w)) \<and>
            w2 = w1 \<and>
            broadcast_prediction_job api job_now2 (prediction_id p) w1 = w1"
proof -
  define w1 where "w1 = check_scheduled_predictions api now1 job_now1 w"
  define p1 where
    "p1 = p\<lparr>status := ACTIVE, activated_at := Some job_now1, broadcast_started := True\<rparr>"
  have "get_scheduled_prediction (db w) = Inr (Some p)"
    by (simp add: get_scheduled_prediction_def sched)
  then have run1: "w1 = broadcast_prediction_job api job_now1 (prediction_id p) w"
    using due fresh by (simp add: w1_def check_scheduled_predictions_def)
  have row: "get_prediction_by_id (db w1) (prediction_id p) =
      Inr (Some (p1\<lparr>broadcast_completed := True\<rparr>))"
    and none: "get_scheduled_prediction (db w1) = Inr None"
    and calls: "api_calls w1 =
      calls_made (broadcast_prediction api p1 (get_all_user_telegram_ids (db w))
                    (get_prediction_keyboard p1 False) None (api_calls w))"
    unfolding run1 p1_def
    by (rule broadcast_prediction_job_scheduled [OF dist act sched fresh])+
  have run2: "check_scheduled_predictions api now2 job_now2 w1 = w1"
    by (simp add: check_scheduled_predictions_def none)
  have again: "broadcast_prediction_job api job_now2 (prediction_id p) w1 = w1"
    by (simp add: broadcast_prediction_job_def row p1_def)
  show ?thesis
    unfolding Let_def w1_def [symmetric] p1_def [symmetric]
    using row none calls run2 again by simp
qed

theorem due_check_twice_witness:
  "instant (scheduled_at sample_prediction) \<le> instant later_time \<and>
   \<not> broadcast_started sample_prediction \<and>
   get_prediction_by_id
     (db (check_scheduled_predictions blocking_api later_time later_time sample_world)) 1 =
     Inr (Some (sample_prediction\<lparr>status := ACTIVE, activated_at := Some later_time,
                                  broadcast_started := True, broadcast_completed := True\<rparr>)) \<and>
   api_calls (check_scheduled_predictions blocking_api later_time later_time sample_world) = 2 \<and>
   check_scheduled_predictions blocking_api later_time later_time
     (check_scheduled_predictions blocking_api later_time later_time sample_world) =
   check_scheduled_predictions blocking_api later_time later_time sample_world"
proof -
  have dist: "distinct (map prediction_id (predictions (db sample_world)))"
    by (simp add: sample_world_def sample_db_def)
  have act: "length (filter (\<lambda>q. status q = ACTIVE) (predictions (db sample_world))) \<le> 1"
    by (simp add: sample_world_def sample_db_def sample_prediction_def)
  have sched: "filter (\<lambda>q. status q = SCHEDULED) (predictions (db sample_world)) =
      [sample_prediction]"
    by (simp add: sample_world_def sample_db_def sample_prediction_def)
  have due: "instant (scheduled_at sample_prediction) \<le> instant later_time"
    by (simp add: sample_prediction_def sample_time_def later_time_def)
  have fresh: "\<not> broadcast_started sample_prediction"
    by (simp add: sample_prediction_def)
  have calls: "calls_made (broadcast_prediction blocking_api
      (sample_prediction\<lparr>status := ACTIVE, activated_at := Some later_time,
                          broadcast_started := True\<rparr>)
      (get_all_user_telegram_ids (db sample_world))
      (get_prediction_keyboard
         (sample_prediction\<lparr>status := ACTIVE, activated_at := Some later_time,
                             broadcast_started := True\<rparr>) False)
      None (api_calls sample_world)) = 2"
    by code_simp
  have pid: "prediction_id sample_prediction = 1"
    by (simp add: sample_prediction_def)
  show ?thesis
    using due fresh calls
      due_check_twice [OF dist act sched due fresh, of blocking_api later_time later_time later_time]
    by (simp add: Let_def pid)
qed


end
